theory Spec2Isabelle
  imports Main "HOL-Library.Sublist"
begin

section \<open>Python values and the collaborators taken as parameters\<close>

text \<open>
  The conversational front end is \<^verbatim>\<open>mrs-salesforce/app.py\<close>; its records are the
  pydantic classes of \<^verbatim>\<open>models.py\<close>.  A value stored in one of the dictionaries the
  program passes around is \<^verbatim>\<open>None\<close>, a \<^verbatim>\<open>str\<close> or a \<^verbatim>\<open>float\<close>.  Floating-point
  numbers are kept abstract (the type variable \<open>'f\<close>); what Python and pydantic compute on
  them is a parameter of the model, collected in the record \<open>env\<close>:
  \<^item> \<open>py_float s\<close> is \<^verbatim>\<open>float(s)\<close> for a string \<open>s\<close>, \<open>None\<close> when it raises ValueError;
  \<^item> \<open>float_truthy x\<close> is \<^verbatim>\<open>bool(x)\<close>;
  \<^item> \<open>validate_float s\<close>, \<open>validate_int s\<close> and \<open>int_of_float x\<close> are pydantic's lax
    coercions of a non-empty string to a float, of a string to an int and of a float to an
    int, \<open>None\<close> when validation fails;
  \<^item> \<open>format_money x\<close> is the format \<^verbatim>\<open>f"{x:,.0f}"\<close>.
\<close>

datatype error = AttributeError | ValidationError

datatype 'f pyval = PNone | PStr string | PFloat 'f

type_synonym 'f pydict = "(string \<times> 'f pyval) list"

record 'f env =
  py_float :: "string \<Rightarrow> 'f option"
  float_truthy :: "'f \<Rightarrow> bool"
  validate_float :: "string \<Rightarrow> 'f option"
  validate_int :: "string \<Rightarrow> int option"
  int_of_float :: "'f \<Rightarrow> int option"
  format_money :: "'f \<Rightarrow> string"

text \<open>Truthiness, as \<^verbatim>\<open>if v\<close> and \<^verbatim>\<open>not v\<close> test it.\<close>

fun truthy :: "'f env \<Rightarrow> 'f pyval \<Rightarrow> bool" where
  "truthy E PNone = False"
| "truthy E (PStr s) = (s \<noteq> [])"
| "truthy E (PFloat x) = float_truthy E x"

definition str_truthy :: "string option \<Rightarrow> bool" where
  "str_truthy v = (case v of None \<Rightarrow> False | Some s \<Rightarrow> s \<noteq> [])"

definition num_truthy :: "'f env \<Rightarrow> 'f option \<Rightarrow> bool" where
  "num_truthy E v = (case v of None \<Rightarrow> False | Some x \<Rightarrow> float_truthy E x)"

text \<open>\<^verbatim>\<open>float(v)\<close> inside \<^verbatim>\<open>try ... except (ValueError, TypeError)\<close>: \<open>None\<close> is the
  except branch (\<^verbatim>\<open>float(None)\<close> raises TypeError).\<close>

fun float_of :: "'f env \<Rightarrow> 'f pyval \<Rightarrow> 'f option" where
  "float_of E PNone = None"
| "float_of E (PStr s) = py_float E s"
| "float_of E (PFloat x) = Some x"

text \<open>Dictionaries are association lists with distinct keys; \<open>map_of\<close> is the lookup.\<close>

fun dict_set :: "string \<Rightarrow> 'v \<Rightarrow> (string \<times> 'v) list \<Rightarrow> (string \<times> 'v) list" where
  "dict_set k v [] = [(k, v)]"
| "dict_set k v ((k', v') # d) =
     (if k' = k then (k, v) # d else (k', v') # dict_set k v d)"

text \<open>\<^verbatim>\<open>d.update(other)\<close>.\<close>

fun dict_update :: "(string \<times> 'v) list \<Rightarrow> (string \<times> 'v) list \<Rightarrow> (string \<times> 'v) list" where
  "dict_update d [] = d"
| "dict_update d ((k, v) # other) = dict_update (dict_set k v d) other"

section \<open>The records of models.py\<close>

text \<open>
  Field names are prefixed by their class (\<open>con_\<close>, \<open>acc_\<close>, \<open>opp_\<close>), since the three
  classes share the names \<^verbatim>\<open>name\<close>, \<^verbatim>\<open>currency\<close>, \<^verbatim>\<open>region\<close> and \<^verbatim>\<open>record_type\<close>.
\<close>

record ContactData =
  con_first_name :: "string option"
  con_last_name :: "string option"
  con_email :: "string option"
  con_phone :: "string option"
  con_title :: "string option"
  con_record_type :: string
  con_currency :: "string option"

record 'f AccountData =
  acc_name :: "string option"
  acc_industry :: "string option"
  acc_website :: "string option"
  acc_annual_revenue :: "'f option"
  acc_number_of_employees :: "int option"
  acc_billing_city :: "string option"
  acc_billing_state :: "string option"
  acc_billing_country :: "string option"
  acc_currency :: "string option"
  acc_segment :: "string option"
  acc_region :: "string option"
  acc_record_type :: string

record MEDDICData =
  metrics_notes :: "string option"
  economic_buyers_notes :: "string option"
  decision_criteria_notes :: "string option"
  decision_process_notes :: "string option"
  identified_pain :: "string option"
  champion :: "string option"

record 'f OpportunityData =
  opp_name :: "string option"
  opp_stage :: string
  opp_forecast_category :: string
  opp_amount :: "'f option"
  opp_close_date :: "string option"
  opp_probability :: "int option"
  opp_deal_summary :: "string option"
  opp_next_steps :: "string option"
  opp_description :: "string option"
  opp_lead_source :: "string option"
  opp_meddic :: "MEDDICData option"
  opp_type :: "string option"
  opp_practice :: "string option"
  opp_region :: "string option"
  opp_currency :: "string option"
  opp_projected_start_date :: "string option"
  opp_number_of_weeks :: "int option"

record 'f SalesCallData =
  contact :: "ContactData option"
  account :: "'f AccountData option"
  opportunity :: "'f OpportunityData option"
  transcript :: string
  summary :: "string option"

text \<open>The class defaults: what \<^verbatim>\<open>ContactData()\<close>, \<^verbatim>\<open>AccountData()\<close> and
  \<^verbatim>\<open>OpportunityData()\<close> construct.\<close>

definition ContactData_default :: ContactData where
  "ContactData_default =
     \<lparr>con_first_name = None, con_last_name = None, con_email = None, con_phone = None,
      con_title = None, con_record_type = ''CRM contact'', con_currency = None\<rparr>"

definition AccountData_default :: "'f AccountData" where
  "AccountData_default =
     \<lparr>acc_name = None, acc_industry = None, acc_website = None, acc_annual_revenue = None,
      acc_number_of_employees = None, acc_billing_city = None, acc_billing_state = None,
      acc_billing_country = None, acc_currency = None, acc_segment = None,
      acc_region = None, acc_record_type = ''Customer''\<rparr>"

definition OpportunityData_default :: "'f OpportunityData" where
  "OpportunityData_default =
     \<lparr>opp_name = None, opp_stage = ''Identified'', opp_forecast_category = ''Pipeline'',
      opp_amount = None, opp_close_date = None, opp_probability = None,
      opp_deal_summary = None, opp_next_steps = None, opp_description = None,
      opp_lead_source = Some ''Call'', opp_meddic = None, opp_type = None,
      opp_practice = None, opp_region = None, opp_currency = None,
      opp_projected_start_date = None, opp_number_of_weeks = None\<rparr>"

subsection \<open>Construction from keyword arguments\<close>

text \<open>
  \<^verbatim>\<open>AccountData(**d)\<close> validates every entry of \<open>d\<close> against the type of the field it names,
  ignores a key that names no field, and raises ValidationError when one entry does not
  validate.  The validators below are pydantic's (lax mode) on the three kinds of value:
  an \<^verbatim>\<open>Optional[str]\<close> field takes \<^verbatim>\<open>None\<close> or a string, a \<^verbatim>\<open>str\<close> field a string only,
  an \<^verbatim>\<open>Optional[float]\<close> field \<^verbatim>\<open>None\<close>, a float, or a string that parses as a number
  (the empty string never does), an \<^verbatim>\<open>Optional[int]\<close> field alike, and the nested
  \<^verbatim>\<open>meddic\<close> model takes neither a string nor a number.
\<close>

fun opt_str :: "'f pyval \<Rightarrow> error + string option" where
  "opt_str PNone = Inr None"
| "opt_str (PStr s) = Inr (Some s)"
| "opt_str (PFloat x) = Inl ValidationError"

fun req_str :: "'f pyval \<Rightarrow> error + string" where
  "req_str (PStr s) = Inr s"
| "req_str PNone = Inl ValidationError"
| "req_str (PFloat x) = Inl ValidationError"

fun opt_float :: "'f env \<Rightarrow> 'f pyval \<Rightarrow> error + 'f option" where
  "opt_float E PNone = Inr None"
| "opt_float E (PFloat x) = Inr (Some x)"
| "opt_float E (PStr s) =
     (if s = [] then Inl ValidationError
      else case validate_float E s of
             None \<Rightarrow> Inl ValidationError
           | Some x \<Rightarrow> Inr (Some x))"

fun opt_int :: "'f env \<Rightarrow> 'f pyval \<Rightarrow> error + int option" where
  "opt_int E PNone = Inr None"
| "opt_int E (PFloat x) =
     (case int_of_float E x of None \<Rightarrow> Inl ValidationError | Some i \<Rightarrow> Inr (Some i))"
| "opt_int E (PStr s) =
     (case validate_int E s of None \<Rightarrow> Inl ValidationError | Some i \<Rightarrow> Inr (Some i))"

fun opt_meddic :: "'f pyval \<Rightarrow> error + MEDDICData option" where
  "opt_meddic PNone = Inr None"
| "opt_meddic (PStr s) = Inl ValidationError"
| "opt_meddic (PFloat x) = Inl ValidationError"

definition set_contact_field ::
  "'f env \<Rightarrow> string \<Rightarrow> 'f pyval \<Rightarrow> ContactData \<Rightarrow> error + ContactData" where
  "set_contact_field E k v c =
     (if k = ''first_name'' then map_sum id (\<lambda>x. c\<lparr>con_first_name := x\<rparr>) (opt_str v)
      else if k = ''last_name'' then map_sum id (\<lambda>x. c\<lparr>con_last_name := x\<rparr>) (opt_str v)
      else if k = ''email'' then map_sum id (\<lambda>x. c\<lparr>con_email := x\<rparr>) (opt_str v)
      else if k = ''phone'' then map_sum id (\<lambda>x. c\<lparr>con_phone := x\<rparr>) (opt_str v)
      else if k = ''title'' then map_sum id (\<lambda>x. c\<lparr>con_title := x\<rparr>) (opt_str v)
      else if k = ''record_type'' then map_sum id (\<lambda>x. c\<lparr>con_record_type := x\<rparr>) (req_str v)
      else if k = ''currency'' then map_sum id (\<lambda>x. c\<lparr>con_currency := x\<rparr>) (opt_str v)
      else Inr c)"

definition set_account_field ::
  "'f env \<Rightarrow> string \<Rightarrow> 'f pyval \<Rightarrow> 'f AccountData \<Rightarrow> error + 'f AccountData" where
  "set_account_field E k v a =
     (if k = ''name'' then map_sum id (\<lambda>x. a\<lparr>acc_name := x\<rparr>) (opt_str v)
      else if k = ''industry'' then map_sum id (\<lambda>x. a\<lparr>acc_industry := x\<rparr>) (opt_str v)
      else if k = ''website'' then map_sum id (\<lambda>x. a\<lparr>acc_website := x\<rparr>) (opt_str v)
      else if k = ''annual_revenue''
        then map_sum id (\<lambda>x. a\<lparr>acc_annual_revenue := x\<rparr>) (opt_float E v)
      else if k = ''number_of_employees''
        then map_sum id (\<lambda>x. a\<lparr>acc_number_of_employees := x\<rparr>) (opt_int E v)
      else if k = ''billing_city''
        then map_sum id (\<lambda>x. a\<lparr>acc_billing_city := x\<rparr>) (opt_str v)
      else if k = ''billing_state''
        then map_sum id (\<lambda>x. a\<lparr>acc_billing_state := x\<rparr>) (opt_str v)
      else if k = ''billing_country''
        then map_sum id (\<lambda>x. a\<lparr>acc_billing_country := x\<rparr>) (opt_str v)
      else if k = ''currency'' then map_sum id (\<lambda>x. a\<lparr>acc_currency := x\<rparr>) (opt_str v)
      else if k = ''segment'' then map_sum id (\<lambda>x. a\<lparr>acc_segment := x\<rparr>) (opt_str v)
      else if k = ''region'' then map_sum id (\<lambda>x. a\<lparr>acc_region := x\<rparr>) (opt_str v)
      else if k = ''record_type''
        then map_sum id (\<lambda>x. a\<lparr>acc_record_type := x\<rparr>) (req_str v)
      else Inr a)"

definition set_opportunity_field ::
  "'f env \<Rightarrow> string \<Rightarrow> 'f pyval \<Rightarrow> 'f OpportunityData \<Rightarrow> error + 'f OpportunityData" where
  "set_opportunity_field E k v p =
     (if k = ''name'' then map_sum id (\<lambda>x. p\<lparr>opp_name := x\<rparr>) (opt_str v)
      else if k = ''stage'' then map_sum id (\<lambda>x. p\<lparr>opp_stage := x\<rparr>) (req_str v)
      else if k = ''forecast_category''
        then map_sum id (\<lambda>x. p\<lparr>opp_forecast_category := x\<rparr>) (req_str v)
      else if k = ''amount'' then map_sum id (\<lambda>x. p\<lparr>opp_amount := x\<rparr>) (opt_float E v)
      else if k = ''close_date'' then map_sum id (\<lambda>x. p\<lparr>opp_close_date := x\<rparr>) (opt_str v)
      else if k = ''probability''
        then map_sum id (\<lambda>x. p\<lparr>opp_probability := x\<rparr>) (opt_int E v)
      else if k = ''deal_summary''
        then map_sum id (\<lambda>x. p\<lparr>opp_deal_summary := x\<rparr>) (opt_str v)
      else if k = ''next_steps'' then map_sum id (\<lambda>x. p\<lparr>opp_next_steps := x\<rparr>) (opt_str v)
      else if k = ''description''
        then map_sum id (\<lambda>x. p\<lparr>opp_description := x\<rparr>) (opt_str v)
      else if k = ''lead_source''
        then map_sum id (\<lambda>x. p\<lparr>opp_lead_source := x\<rparr>) (opt_str v)
      else if k = ''meddic'' then map_sum id (\<lambda>x. p\<lparr>opp_meddic := x\<rparr>) (opt_meddic v)
      else if k = ''type'' then map_sum id (\<lambda>x. p\<lparr>opp_type := x\<rparr>) (opt_str v)
      else if k = ''practice'' then map_sum id (\<lambda>x. p\<lparr>opp_practice := x\<rparr>) (opt_str v)
      else if k = ''region'' then map_sum id (\<lambda>x. p\<lparr>opp_region := x\<rparr>) (opt_str v)
      else if k = ''currency'' then map_sum id (\<lambda>x. p\<lparr>opp_currency := x\<rparr>) (opt_str v)
      else if k = ''projected_start_date''
        then map_sum id (\<lambda>x. p\<lparr>opp_projected_start_date := x\<rparr>) (opt_str v)
      else if k = ''number_of_weeks''
        then map_sum id (\<lambda>x. p\<lparr>opp_number_of_weeks := x\<rparr>) (opt_int E v)
      else Inr p)"

text \<open>
  \<open>construct setf d r\<close> is the constructor call on the keyword arguments \<open>d\<close> laid over
  the record \<open>r\<close>: over the class defaults it is \<^verbatim>\<open>Cls(**d)\<close>, and over an existing
  object \<open>r\<close> it is \<^verbatim>\<open>dd = r.model_dump(); dd.update(d); Cls(**dd)\<close>, because the dumped
  fields of \<open>r\<close> validate to themselves.
\<close>

fun construct ::
  "(string \<Rightarrow> 'v \<Rightarrow> 'r \<Rightarrow> error + 'r) \<Rightarrow> (string \<times> 'v) list \<Rightarrow> 'r \<Rightarrow> error + 'r" where
  "construct setf [] r = Inr r"
| "construct setf ((k, v) # d) r =
     (case setf k v r of Inl e \<Rightarrow> Inl e | Inr r' \<Rightarrow> construct setf d r')"

section \<open>MergeEngine: merge_manual_inputs\<close>

record 'f manual_dicts =
  mi_account :: "'f pydict"
  mi_contact :: "'f pydict"
  mi_opportunity :: "'f pydict"

text \<open>
  The three blocks of \<^verbatim>\<open>merge_manual_inputs\<close>, one per category.  The first argument of
  each is \<^verbatim>\<open>st.session_state.manual_inputs[category]\<close>, the second the entity of the deep
  copy.  A model object is always truthy, an empty dictionary is falsy, and
  \<^verbatim>\<open>{k: v for k, v in d.items() if v}\<close> is a filter.
\<close>

definition merge_account ::
  "'f env \<Rightarrow> 'f pydict \<Rightarrow> 'f AccountData option \<Rightarrow> error + 'f AccountData option" where
  "merge_account E man acc =
     (case acc of
        Some a \<Rightarrow>
          if man \<noteq> []
          then map_sum id Some
                 (construct (set_account_field E) (filter (\<lambda>(k, v). truthy E v) man) a)
          else Inr (Some a)
      | None \<Rightarrow>
          if man \<noteq> [] \<and> list_ex (truthy E) (map snd man)
          then map_sum id Some (construct (set_account_field E) man AccountData_default)
          else Inr None)"

definition merge_contact ::
  "'f env \<Rightarrow> 'f pydict \<Rightarrow> ContactData option \<Rightarrow> error + ContactData option" where
  "merge_contact E man con =
     (case con of
        Some c \<Rightarrow>
          if man \<noteq> []
          then map_sum id Some
                 (construct (set_contact_field E) (filter (\<lambda>(k, v). truthy E v) man) c)
          else Inr (Some c)
      | None \<Rightarrow>
          if man \<noteq> [] \<and> list_ex (truthy E) (map snd man)
          then map_sum id Some (construct (set_contact_field E) man ContactData_default)
          else Inr None)"

text \<open>
  In the opportunity block the amount is coerced with \<^verbatim>\<open>float\<close>.  With an extracted
  opportunity, a parsed amount is written to \<^verbatim>\<open>opp_dict['amount']\<close>, a failed parse passes,
  and the update leaves the key \<^verbatim>\<open>amount\<close> out.  Without one, the copy of the manual
  dictionary gets the parsed amount, or \<^verbatim>\<open>None\<close> when the parse fails; an amount that is
  falsy is not touched and goes to the constructor as it is.
\<close>

definition merge_opportunity ::
  "'f env \<Rightarrow> 'f pydict \<Rightarrow> 'f OpportunityData option \<Rightarrow> error + 'f OpportunityData option"
  where
  "merge_opportunity E man opp =
     (case opp of
        Some p \<Rightarrow>
          if man \<noteq> []
          then
            let p1 = (case map_of man ''amount'' of
                        Some v \<Rightarrow>
                          if truthy E v
                          then (case float_of E v of
                                  Some x \<Rightarrow> p\<lparr>opp_amount := Some x\<rparr>
                                | None \<Rightarrow> p)
                          else p
                      | None \<Rightarrow> p)
            in map_sum id Some
                 (construct (set_opportunity_field E)
                    (filter (\<lambda>(k, v). truthy E v \<and> k \<noteq> ''amount'') man) p1)
          else Inr (Some p)
      | None \<Rightarrow>
          if man \<noteq> [] \<and> list_ex (truthy E) (map snd man)
          then
            let opp_dict = (case map_of man ''amount'' of
                              Some v \<Rightarrow>
                                if truthy E v
                                then (case float_of E v of
                                        Some x \<Rightarrow> dict_set ''amount'' (PFloat x) man
                                      | None \<Rightarrow> dict_set ''amount'' PNone man)
                                else man
                            | None \<Rightarrow> man)
            in map_sum id Some
                 (construct (set_opportunity_field E) opp_dict OpportunityData_default)
          else Inr None)"

text \<open>\<^verbatim>\<open>merge_manual_inputs(call_data)\<close>: on \<^verbatim>\<open>None\<close> the deep copy is \<^verbatim>\<open>None\<close> and the
  first attribute access raises AttributeError.\<close>

definition merge_manual_inputs ::
  "'f env \<Rightarrow> 'f manual_dicts \<Rightarrow> 'f SalesCallData option \<Rightarrow> error + 'f SalesCallData"
  where
  "merge_manual_inputs E mi call_data =
     (case call_data of
        None \<Rightarrow> Inl AttributeError
      | Some result \<Rightarrow>
          (case merge_account E (mi_account mi) (account result) of
             Inl e \<Rightarrow> Inl e
           | Inr a \<Rightarrow>
               (case merge_contact E (mi_contact mi) (contact result) of
                  Inl e \<Rightarrow> Inl e
                | Inr c \<Rightarrow>
                    (case merge_opportunity E (mi_opportunity mi) (opportunity result) of
                       Inl e \<Rightarrow> Inl e
                     | Inr p \<Rightarrow>
                         Inr (result\<lparr>account := a, contact := c, opportunity := p\<rparr>)))))"

section \<open>MissingFieldResolver\<close>

text \<open>\<^verbatim>\<open>not obj or not obj.field\<close>, with the truthiness test of the field as \<open>P\<close>.\<close>

definition lacks :: "'a option \<Rightarrow> ('a \<Rightarrow> bool) \<Rightarrow> bool" where
  "lacks obj P = (case obj of None \<Rightarrow> True | Some x \<Rightarrow> \<not> P x)"

text \<open>\<^verbatim>\<open>get_missing_required_fields(entity_type, data)\<close>, one function for each of the
  three literals it is called with.\<close>

definition get_missing_required_fields_account :: "'f AccountData option \<Rightarrow> string list" where
  "get_missing_required_fields_account data =
     (case data of
        None \<Rightarrow> [''name'', ''currency'', ''region'']
      | Some d \<Rightarrow>
          (if \<not> str_truthy (acc_name d) then [''name''] else []) @
          (if \<not> str_truthy (acc_currency d) then [''currency''] else []) @
          (if \<not> str_truthy (acc_region d) then [''region''] else []))"

definition get_missing_required_fields_contact :: "ContactData option \<Rightarrow> string list" where
  "get_missing_required_fields_contact data =
     (case data of
        None \<Rightarrow> [''last_name'', ''title'', ''email'']
      | Some d \<Rightarrow>
          (if \<not> str_truthy (con_last_name d) then [''last_name''] else []) @
          (if \<not> str_truthy (con_title d) then [''title''] else []) @
          (if \<not> str_truthy (con_email d) then [''email''] else []))"

definition get_missing_required_fields_opportunity ::
  "'f env \<Rightarrow> 'f OpportunityData option \<Rightarrow> string list" where
  "get_missing_required_fields_opportunity E data =
     (case data of
        None \<Rightarrow> [''name'', ''amount'', ''close_date'']
      | Some d \<Rightarrow>
          (if \<not> str_truthy (opp_name d) then [''name''] else []) @
          (if \<not> num_truthy E (opp_amount d) then [''amount''] else []) @
          (if \<not> str_truthy (opp_close_date d) then [''close_date''] else []))"

text \<open>\<^verbatim>\<open>get_missing_required_fields_from_data(call_data)\<close>: the dictionary with the keys
  \<^verbatim>\<open>account\<close>, \<^verbatim>\<open>contact\<close> and \<^verbatim>\<open>opportunity\<close>, in the order of its appends.\<close>

definition get_missing_required_fields_from_data ::
  "'f env \<Rightarrow> 'f SalesCallData \<Rightarrow> (string \<times> string list) list" where
  "get_missing_required_fields_from_data E call_data =
     [(''account'',
        (if lacks (account call_data) (\<lambda>a. str_truthy (acc_name a)) then [''name''] else []) @
        (if lacks (account call_data) (\<lambda>a. str_truthy (acc_currency a))
         then [''currency''] else []) @
        (if lacks (account call_data) (\<lambda>a. str_truthy (acc_region a))
         then [''region''] else [])),
      (''contact'',
        (if lacks (contact call_data) (\<lambda>c. str_truthy (con_last_name c))
         then [''last_name''] else []) @
        (if lacks (contact call_data) (\<lambda>c. str_truthy (con_email c)) then [''email''] else []) @
        (if lacks (contact call_data) (\<lambda>c. str_truthy (con_title c)) then [''title''] else [])),
      (''opportunity'',
        (if lacks (opportunity call_data) (\<lambda>p. str_truthy (opp_name p))
         then [''name''] else []) @
        (if lacks (opportunity call_data) (\<lambda>p. num_truthy E (opp_amount p))
         then [''amount''] else []) @
        (if lacks (opportunity call_data) (\<lambda>p. str_truthy (opp_close_date p))
         then [''close_date''] else []))]"

text \<open>The question mapping of \<^verbatim>\<open>get_next_question\<close>.\<close>

definition questions :: "((string \<times> string) \<times> string) list" where
  "questions =
     [((''account'', ''name''), ''**What's the name of the company or account?**''),
      ((''account'', ''currency''), ''**What currency should we use?** (e.g., USD, EUR, GBP)''),
      ((''account'', ''region''),
         ''**What region is the company located in?** (e.g., North America, Europe, Asia-Pacific)''),
      ((''contact'', ''last_name''), ''**What's the contact person's last name?**''),
      ((''contact'', ''email''), ''**What's the contact person's email address?**''),
      ((''contact'', ''title''), ''**What's the contact person's job title?**''),
      ((''opportunity'', ''name''), ''**What's the name of the opportunity or deal?**''),
      ((''opportunity'', ''amount''), ''**What's the expected deal amount?** (e.g., 50000)''),
      ((''opportunity'', ''close_date''),
         ''**What's the expected close date?** (e.g., Q2 2025, or a specific date)'')]"

text \<open>The question identifier \<^verbatim>\<open>f"{category}_{field}"\<close>.\<close>

definition question_id :: "string \<Rightarrow> string \<Rightarrow> string" where
  "question_id category field = category @ ''_'' @ field"

text \<open>The inner loop \<^verbatim>\<open>for field in missing[category]\<close> and the outer loop
  \<^verbatim>\<open>for category in ['account', 'contact', 'opportunity']\<close>; each returns at the first
  field whose question exists and has not been asked.\<close>

fun next_in_fields ::
  "string list \<Rightarrow> string \<Rightarrow> string list \<Rightarrow> (string \<times> string \<times> string) option" where
  "next_in_fields questions_asked category [] = None"
| "next_in_fields questions_asked category (field # field_list) =
     (case map_of questions (category, field) of
        Some question_text \<Rightarrow>
          if question_id category field \<notin> set questions_asked
          then Some (category, field, question_text)
          else next_in_fields questions_asked category field_list
      | None \<Rightarrow> next_in_fields questions_asked category field_list)"

fun next_in_categories ::
  "(string \<times> string list) list \<Rightarrow> string list \<Rightarrow> string list \<Rightarrow>
   (string \<times> string \<times> string) option" where
  "next_in_categories missing questions_asked [] = None"
| "next_in_categories missing questions_asked (category # categories) =
     (case map_of missing category of
        None \<Rightarrow> None
      | Some field_list \<Rightarrow>
          (case next_in_fields questions_asked category field_list of
             Some q \<Rightarrow> Some q
           | None \<Rightarrow> next_in_categories missing questions_asked categories))"

definition get_next_question ::
  "'f env \<Rightarrow> 'f SalesCallData option \<Rightarrow> string list \<Rightarrow> (string \<times> string \<times> string) option"
  where
  "get_next_question E call_data questions_asked =
     (case call_data of
        None \<Rightarrow>
          if ''account_name'' \<notin> set questions_asked
          then Some (''account'', ''name'', ''**What's the name of the company or account?**'')
          else None
      | Some cd \<Rightarrow>
          next_in_categories (get_missing_required_fields_from_data E cd) questions_asked
            [''account'', ''contact'', ''opportunity''])"

section \<open>Strings\<close>

text \<open>
  A Python string is a list of characters; a code point outside ASCII that occurs in a
  literal of the program is written as its UTF-8 bytes.  Every test the program makes on
  a message is a prefix or substring test against an ASCII literal, possibly after
  \<^verbatim>\<open>lower()\<close>, and those tests are the same on bytes and on code points.
\<close>

definition nl :: string where
  "nl = [CHR 0x0A]"

definition bullet :: string where
  "bullet = [CHR 0xE2, CHR 0x80, CHR 0xA2]"

definition emoji_check :: string where
  "emoji_check = [CHR 0xE2, CHR 0x9C, CHR 0x85]"

definition emoji_wave :: string where
  "emoji_wave = [CHR 0xF0, CHR 0x9F, CHR 0x91, CHR 0x8B]"

definition emoji_page :: string where
  "emoji_page = [CHR 0xF0, CHR 0x9F, CHR 0x93, CHR 0x84]"

definition emoji_eye :: string where
  "emoji_eye = [CHR 0xF0, CHR 0x9F, CHR 0x91, CHR 0x81, CHR 0xEF, CHR 0xB8, CHR 0x8F]"

definition emoji_warning :: string where
  "emoji_warning = [CHR 0xE2, CHR 0x9A, CHR 0xA0, CHR 0xEF, CHR 0xB8, CHR 0x8F]"

definition emoji_cross :: string where
  "emoji_cross = [CHR 0xE2, CHR 0x9D, CHR 0x8C]"

text \<open>\<^verbatim>\<open>sub in s\<close> and \<^verbatim>\<open>s.startswith(p)\<close>.\<close>

definition contains :: "string \<Rightarrow> string \<Rightarrow> bool" where
  "contains sub s = sublist sub s"

definition startswith :: "string \<Rightarrow> string \<Rightarrow> bool" where
  "startswith s p = prefix p s"

definition is_upper :: "char \<Rightarrow> bool" where
  "is_upper c = (65 \<le> (of_char c :: nat) \<and> (of_char c :: nat) \<le> 90)"

definition is_lower :: "char \<Rightarrow> bool" where
  "is_lower c = (97 \<le> (of_char c :: nat) \<and> (of_char c :: nat) \<le> 122)"

definition to_lower :: "char \<Rightarrow> char" where
  "to_lower c = (if is_upper c then char_of ((of_char c :: nat) + 32) else c)"

definition to_upper :: "char \<Rightarrow> char" where
  "to_upper c = (if is_lower c then char_of ((of_char c :: nat) - 32) else c)"

definition lower :: "string \<Rightarrow> string" where
  "lower s = map to_lower s"

text \<open>\<^verbatim>\<open>s.title()\<close>: a letter that follows a letter is lowered, any other letter is
  capitalised.\<close>

fun title_from :: "bool \<Rightarrow> string \<Rightarrow> string" where
  "title_from after_letter [] = []"
| "title_from after_letter (c # cs) =
     (if is_upper c \<or> is_lower c
      then (if after_letter then to_lower c else to_upper c) # title_from True cs
      else c # title_from False cs)"

definition title :: "string \<Rightarrow> string" where
  "title s = title_from False s"

text \<open>\<^verbatim>\<open>s.replace('_', ' ')\<close>.\<close>

definition replace_underscores :: "string \<Rightarrow> string" where
  "replace_underscores s = map (\<lambda>c. if c = CHR ''_'' then CHR '' '' else c) s"

text \<open>\<^verbatim>\<open>s.strip()\<close>: the whitespace of \<^verbatim>\<open>str.isspace\<close> among the first 256 code points.\<close>

definition is_space :: "char \<Rightarrow> bool" where
  "is_space c =
     (let n = (of_char c :: nat)
      in (9 \<le> n \<and> n \<le> 13) \<or> (28 \<le> n \<and> n \<le> 32) \<or> n = 133 \<or> n = 160)"

definition strip :: "string \<Rightarrow> string" where
  "strip s = rev (dropWhile is_space (rev (dropWhile is_space s)))"

text \<open>\<^verbatim>\<open>sep.join(xs)\<close>.\<close>

fun join :: "string \<Rightarrow> string list \<Rightarrow> string" where
  "join sep [] = []"
| "join sep [x] = x"
| "join sep (x # y # xs) = x @ sep @ join sep (y # xs)"

text \<open>\<^verbatim>\<open>str(n)\<close> for the integers the program prints.\<close>

fun show_nat :: "nat \<Rightarrow> string" where
  "show_nat n =
     (if n < 10 then [char_of (48 + n)]
      else show_nat (n div 10) @ [char_of (48 + n mod 10)])"

definition show_int :: "int \<Rightarrow> string" where
  "show_int i = (if i < 0 then ''-'' @ show_nat (nat (- i)) else show_nat (nat i))"

section \<open>Display of an entity: format_entity_for_display\<close>

definition format_account_for_display :: "'f env \<Rightarrow> 'f AccountData option \<Rightarrow> string" where
  "format_account_for_display E data =
     (case data of
        None \<Rightarrow> ''No data available.''
      | Some d \<Rightarrow>
          join nl
            ([''**Account Information:**''] @
             (case acc_name d of
                Some x \<Rightarrow> if x \<noteq> [] then [''  '' @ bullet @ '' Name: '' @ x] else []
              | None \<Rightarrow> []) @
             (case acc_industry d of
                Some x \<Rightarrow> if x \<noteq> [] then [''  '' @ bullet @ '' Industry: '' @ x] else []
              | None \<Rightarrow> []) @
             (case acc_billing_city d of
                Some x \<Rightarrow> if x \<noteq> [] then [''  '' @ bullet @ '' City: '' @ x] else []
              | None \<Rightarrow> []) @
             (case acc_billing_state d of
                Some x \<Rightarrow> if x \<noteq> [] then [''  '' @ bullet @ '' State: '' @ x] else []
              | None \<Rightarrow> []) @
             (case acc_billing_country d of
                Some x \<Rightarrow> if x \<noteq> [] then [''  '' @ bullet @ '' Country: '' @ x] else []
              | None \<Rightarrow> []) @
             (case acc_website d of
                Some x \<Rightarrow> if x \<noteq> [] then [''  '' @ bullet @ '' Website: '' @ x] else []
              | None \<Rightarrow> []) @
             (case acc_annual_revenue d of
                Some x \<Rightarrow>
                  if float_truthy E x
                  then [''  '' @ bullet @ '' Annual Revenue: $'' @ format_money E x] else []
              | None \<Rightarrow> []) @
             (case acc_number_of_employees d of
                Some n \<Rightarrow> if n \<noteq> 0 then [''  '' @ bullet @ '' Employees: '' @ show_int n] else []
              | None \<Rightarrow> [])))"

definition format_contact_for_display :: "ContactData option \<Rightarrow> string" where
  "format_contact_for_display data =
     (case data of
        None \<Rightarrow> ''No data available.''
      | Some d \<Rightarrow>
          join nl
            ([''**Contact Information:**''] @
             (case con_first_name d of
                Some x \<Rightarrow> if x \<noteq> [] then [''  '' @ bullet @ '' First Name: '' @ x] else []
              | None \<Rightarrow> []) @
             (case con_last_name d of
                Some x \<Rightarrow> if x \<noteq> [] then [''  '' @ bullet @ '' Last Name: '' @ x] else []
              | None \<Rightarrow> []) @
             (case con_email d of
                Some x \<Rightarrow> if x \<noteq> [] then [''  '' @ bullet @ '' Email: '' @ x] else []
              | None \<Rightarrow> []) @
             (case con_phone d of
                Some x \<Rightarrow> if x \<noteq> [] then [''  '' @ bullet @ '' Phone: '' @ x] else []
              | None \<Rightarrow> []) @
             (case con_title d of
                Some x \<Rightarrow> if x \<noteq> [] then [''  '' @ bullet @ '' Title: '' @ x] else []
              | None \<Rightarrow> [])))"

definition format_opportunity_for_display ::
  "'f env \<Rightarrow> 'f OpportunityData option \<Rightarrow> string" where
  "format_opportunity_for_display E data =
     (case data of
        None \<Rightarrow> ''No data available.''
      | Some d \<Rightarrow>
          join nl
            ([''**Opportunity Information:**''] @
             (case opp_name d of
                Some x \<Rightarrow> if x \<noteq> [] then [''  '' @ bullet @ '' Name: '' @ x] else []
              | None \<Rightarrow> []) @
             (case opp_amount d of
                Some x \<Rightarrow>
                  if float_truthy E x
                  then [''  '' @ bullet @ '' Amount: $'' @ format_money E x] else []
              | None \<Rightarrow> []) @
             (case opp_close_date d of
                Some x \<Rightarrow> if x \<noteq> [] then [''  '' @ bullet @ '' Close Date: '' @ x] else []
              | None \<Rightarrow> []) @
             (if opp_stage d \<noteq> [] then [''  '' @ bullet @ '' Stage: '' @ opp_stage d] else []) @
             (case opp_next_steps d of
                Some x \<Rightarrow> if x \<noteq> [] then [''  '' @ bullet @ '' Next Steps: '' @ x] else []
              | None \<Rightarrow> [])))"

section \<open>ConversationController: the session state\<close>

text \<open>
  The keys of \<^verbatim>\<open>st.session_state\<close>.  A message keeps its role and its content; its
  timestamp is never read.  The agent is created once per session and survives a reset:
  \<open>agent_initialized\<close> and \<open>salesforce_available\<close> record how its creation went.
\<close>

datatype stage =
    STAGE_TRANSCRIPT
  | STAGE_CHAT_COLLECTION
  | STAGE_ACCOUNT
  | STAGE_ACCOUNT_VERIFY
  | STAGE_CONTACT
  | STAGE_CONTACT_VERIFY
  | STAGE_OPPORTUNITY
  | STAGE_OPPORTUNITY_VERIFY
  | STAGE_FINAL_REVIEW
  | STAGE_COMPLETE

record message =
  role :: string
  content :: string

record verified_flags =
  v_account :: bool
  v_contact :: bool
  v_opportunity :: bool

record 'f session_state =
  agent_initialized :: bool
  salesforce_available :: bool
  conversation_stage :: stage
  messages :: "message list"
  extracted_data :: "'f SalesCallData option"
  manual_inputs :: "'f manual_dicts"
  verified :: verified_flags
  transcript_uploaded :: bool
  chat_collection_mode :: bool
  chat_data_extracted :: bool
  questions_asked :: "string list"
  current_question_category :: "string option"
  last_assistant_message :: "string option"

definition initial_state :: "bool \<Rightarrow> bool \<Rightarrow> 'f session_state" where
  "initial_state initialized available =
     \<lparr>agent_initialized = initialized, salesforce_available = available,
      conversation_stage = STAGE_TRANSCRIPT, messages = [], extracted_data = None,
      manual_inputs = \<lparr>mi_account = [], mi_contact = [], mi_opportunity = []\<rparr>,
      verified = \<lparr>v_account = False, v_contact = False, v_opportunity = False\<rparr>,
      transcript_uploaded = False, chat_collection_mode = False,
      chat_data_extracted = False, questions_asked = [],
      current_question_category = None, last_assistant_message = None\<rparr>"

text \<open>The reset of the sidebar button and of "Process Another Transcript".\<close>

definition reset_conversation :: "'f session_state \<Rightarrow> 'f session_state" where
  "reset_conversation s =
     s\<lparr>conversation_stage := STAGE_TRANSCRIPT, messages := [], extracted_data := None,
       manual_inputs := \<lparr>mi_account = [], mi_contact = [], mi_opportunity = []\<rparr>,
       verified := \<lparr>v_account = False, v_contact = False, v_opportunity = False\<rparr>,
       transcript_uploaded := False, chat_collection_mode := False,
       chat_data_extracted := False, questions_asked := [],
       current_question_category := None, last_assistant_message := None\<rparr>"

definition add_message :: "string \<Rightarrow> string \<Rightarrow> 'f session_state \<Rightarrow> 'f session_state" where
  "add_message r c s = s\<lparr>messages := messages s @ [\<lparr>role = r, content = c\<rparr>]\<rparr>"

subsection \<open>What one run of the script receives\<close>

text \<open>
  Streamlit runs the script once for each user action, and once more after each
  \<^verbatim>\<open>st.rerun()\<close>, then with no action.  An event is the widget that fired together with
  what the user typed and with what the external collaborator answers in that run: the
  extraction either raises or returns \<^verbatim>\<open>result.get("extracted_data")\<close>, the record
  creation either raises or returns its result dictionary.  A text input returns a string
  or \<^verbatim>\<open>None\<close>; a form event gives the returned value of each input by its field name.
\<close>

datatype 'f extraction = ExtractionRaises | ExtractionReturns "'f SalesCallData option"

record create_result =
  preview_mode :: bool
  created_records :: "(string \<times> string) list"
  errors :: "string list"

datatype creation = CreationRaises | CreationReturns create_result

datatype 'f event =
    NoEvent
  | ResetConversation
  | ProcessTranscript string "'f extraction"
  | ProvideInfoInChat
  | ChatInput string "'f extraction"
  | SaveAccountFields "string \<Rightarrow> string option"
  | AccountLooksGood
  | EditAccount
  | SaveContactFields "string \<Rightarrow> string option"
  | ContactLooksGood
  | EditContact
  | SaveOpportunityFields "string \<Rightarrow> string option"
  | OpportunityLooksGood
  | EditOpportunity
  | CreateRecords creation
  | GoBackToEdit
  | ProcessAnother

definition text_value :: "string option \<Rightarrow> 'f pyval" where
  "text_value v = (case v of None \<Rightarrow> PNone | Some t \<Rightarrow> PStr t)"

subsection \<open>The texts of the assistant and of the user\<close>

definition welcome_text :: string where
  "welcome_text =
     emoji_wave @ '' Hello! I'm Mrs. Salesforce, your AI sales assistant. I'll help you extract information from call transcripts and create Salesforce records.''
     @ nl @ nl @ ''You can either:'' @ nl
     @ ''1. Upload or paste your call transcript, or'' @ nl
     @ ''2. Provide the information through chat if you don't have a transcript.''"

text \<open>The number shown is the length of the list of characters; it is the \<^verbatim>\<open>len\<close> of Python
  for a transcript of ASCII characters.  No test reads it.\<close>

definition uploaded_text :: "string \<Rightarrow> string" where
  "uploaded_text transcript_text =
     emoji_page @ '' Transcript uploaded ('' @ show_nat (length transcript_text)
     @ '' characters)''"

definition processed_text :: string where
  "processed_text =
     emoji_check @ '' Great! I've processed your transcript. Let me extract the information step by step.''
     @ nl @ nl @ ''Let's start with the **Account** information.''"

definition provide_in_chat_text :: string where
  "provide_in_chat_text = ''I'd like to provide information through chat''"

definition account_name_question :: string where
  "account_name_question = ''**What's the name of the company or account?**''"

definition guide_text :: string where
  "guide_text =
     ''Great! I'll guide you through collecting all the information we need. Let me start by asking you a few questions.''
     @ nl @ nl @ account_name_question"

definition collected_text :: string where
  "collected_text =
     emoji_check @ '' I've collected all the necessary information. Let me organize it step by step.''
     @ nl @ nl @ ''Let's start with the **Account** information.''"

definition more_details_text :: string where
  "more_details_text = ''I'm processing your information. Could you provide more details?''"

definition more_details_about_text :: string where
  "more_details_about_text =
     ''I'm processing your information. Could you provide more details about the company, contact person, or opportunity?''"

definition continue_text :: string where
  "continue_text =
     ''Thanks! Please continue providing information, and I'll ask follow-up questions as needed.''"

definition missing_prompt :: "string \<Rightarrow> string list \<Rightarrow> string" where
  "missing_prompt entity missing_fields =
     ''I need the following required fields to complete the '' @ entity @ '':'' @ nl @ nl
     @ ''**Missing:** '' @ join '', '' (map (\<lambda>f. title (replace_underscores f)) missing_fields)
     @ nl @ nl @ ''Please fill them in below:''"

definition cannot_extract_text :: "string \<Rightarrow> string" where
  "cannot_extract_text entity =
     ''I couldn't extract any '' @ entity @ '' information from the transcript.''"

definition preview_text :: string where
  "preview_text =
     emoji_eye @ '' Preview mode: Salesforce integration not configured. The records above show what would be created.''"

definition success_text :: "(string \<times> string) list \<Rightarrow> string" where
  "success_text recs =
     emoji_check @ '' **Success!** Records created in Salesforce:'' @ nl @ nl
     @ join nl (map (\<lambda>(k, v). ''  '' @ bullet @ '' '' @ k @ '': '' @ v) recs)"

definition no_records_text :: string where
  "no_records_text = emoji_warning @ '' No records were created. Please check the errors.''"

definition errors_text :: "string list \<Rightarrow> string" where
  "errors_text errs =
     emoji_cross @ '' **Errors:**'' @ nl @ nl
     @ join nl (map (\<lambda>e. ''  '' @ bullet @ '' '' @ e) errs)"

text \<open>\<^verbatim>\<open>st.session_state.messages[-3:]\<close>.\<close>

definition last3 :: "'a list \<Rightarrow> 'a list" where
  "last3 xs = drop (length xs - 3) xs"

subsection \<open>Stage 1: transcript upload\<close>

text \<open>
  In every handler \<^verbatim>\<open>st.rerun()\<close> ends the run, so the model returns the state it has
  reached there.  A widget fires only in a run that renders it: an event that belongs to
  no widget of the branch taken changes nothing.
\<close>

definition provide_info_in_chat :: "'f session_state \<Rightarrow> 'f session_state" where
  "provide_info_in_chat s =
     (let s1 = s\<lparr>chat_collection_mode := True,
                  conversation_stage := STAGE_CHAT_COLLECTION,
                  questions_asked := [],
                  current_question_category := None\<rparr>
      in if \<not> list_ex (\<lambda>msg. contains ''chat'' (lower (content msg)) \<and>
                              contains ''information'' (lower (content msg))) (messages s1)
         then (add_message ''assistant'' guide_text
                 (add_message ''user'' provide_in_chat_text s1))
              \<lparr>questions_asked := questions_asked s1 @ [''account_name''],
               current_question_category := Some ''account''\<rparr>
         else s1)"

definition stage_transcript :: "'f session_state \<Rightarrow> 'f event \<Rightarrow> 'f session_state" where
  "stage_transcript s ev =
     (if \<not> transcript_uploaded s
      then
        if messages s = [] then add_message ''assistant'' welcome_text s
        else
          (case ev of
             ProcessTranscript transcript_text outcome \<Rightarrow>
               if strip transcript_text = [] then s
               else if \<not> agent_initialized s then s
               else
                 (case outcome of
                    ExtractionRaises \<Rightarrow> s
                  | ExtractionReturns ed \<Rightarrow>
                      (add_message ''assistant'' processed_text
                         (add_message ''user'' (uploaded_text transcript_text)
                            (s\<lparr>extracted_data := ed, transcript_uploaded := True\<rparr>)))
                      \<lparr>conversation_stage := STAGE_ACCOUNT\<rparr>)
           | ProvideInfoInChat \<Rightarrow> provide_info_in_chat s
           | _ \<Rightarrow> s)
      else s)"

subsection \<open>Stage 1.5: chat collection\<close>

definition asked_at_most_once :: "string \<Rightarrow> string list \<Rightarrow> bool" where
  "asked_at_most_once q asked =
     (q \<notin> set asked \<or> length (filter (\<lambda>x. x = q) asked) = 1)"

definition acknowledgment_parts :: "'f SalesCallData \<Rightarrow> string list \<Rightarrow> string list" where
  "acknowledgment_parts extracted asked =
     (case account extracted of
        Some a \<Rightarrow>
          (case acc_name a of
             Some n \<Rightarrow>
               if n \<noteq> [] \<and> asked_at_most_once ''account_name'' asked
               then [''Company: '' @ n] else []
           | None \<Rightarrow> [])
      | None \<Rightarrow> []) @
     (case contact extracted of
        Some c \<Rightarrow>
          (case con_last_name c of
             Some l \<Rightarrow>
               if l \<noteq> [] \<and> asked_at_most_once ''contact_last_name'' asked
               then [''Contact: '' @
                     strip ((case con_first_name c of Some f \<Rightarrow> f | None \<Rightarrow> []) @ '' '' @ l)]
               else []
           | None \<Rightarrow> [])
      | None \<Rightarrow> []) @
     (case opportunity extracted of
        Some p \<Rightarrow>
          (case opp_name p of
             Some n \<Rightarrow>
               if n \<noteq> [] \<and> asked_at_most_once ''opportunity_name'' asked
               then [''Opportunity: '' @ n] else []
           | None \<Rightarrow> [])
      | None \<Rightarrow> [])"

text \<open>The branch \<^verbatim>\<open>if extracted:\<close> of the chat turn.\<close>

definition chat_extracted ::
  "'f env \<Rightarrow> 'f session_state \<Rightarrow> 'f SalesCallData \<Rightarrow> 'f session_state" where
  "chat_extracted E s0 extracted =
     (let s1 = s0\<lparr>extracted_data := Some extracted, chat_data_extracted := True\<rparr>;
          parts = acknowledgment_parts extracted (questions_asked s1)
      in case get_next_question E (Some extracted) (questions_asked s1) of
           Some (category, field, question_text) \<Rightarrow>
             if question_id category field \<notin> set (questions_asked s1)
             then
               let assistant_msg =
                     (if parts \<noteq> [] then ''Thanks! '' @ join '', '' parts @ ''. ''
                      else ''Got it! '') @ question_text
               in (add_message ''assistant'' assistant_msg
                     (s1\<lparr>questions_asked := questions_asked s1 @ [question_id category field],
                         current_question_category := Some category\<rparr>))
                  \<lparr>last_assistant_message := Some assistant_msg\<rparr>
             else s1
         | None \<Rightarrow>
             let assistant_msg =
                   (if parts \<noteq> [] then ''Perfect! '' @ join '', '' parts @ ''. ''
                    else ''Perfect! '') @ collected_text
             in (add_message ''assistant'' assistant_msg s1)
                \<lparr>last_assistant_message := Some assistant_msg,
                 conversation_stage := STAGE_ACCOUNT\<rparr>)"

text \<open>The branch \<^verbatim>\<open>else:\<close> of the chat turn: the extraction returned nothing.\<close>

definition chat_not_extracted :: "'f env \<Rightarrow> 'f session_state \<Rightarrow> 'f session_state" where
  "chat_not_extracted E s0 =
     (if ''account_name'' \<notin> set (questions_asked s0)
      then (add_message ''assistant'' account_name_question s0)
           \<lparr>questions_asked := questions_asked s0 @ [''account_name''],
            last_assistant_message := Some account_name_question\<rparr>
      else
        (case extracted_data s0 of
           Some ed \<Rightarrow>
             (case get_next_question E (Some ed) (questions_asked s0) of
                Some (category, field, question_text) \<Rightarrow>
                  if question_id category field \<notin> set (questions_asked s0)
                  then (add_message ''assistant'' question_text
                          (s0\<lparr>questions_asked :=
                                questions_asked s0 @ [question_id category field]\<rparr>))
                       \<lparr>last_assistant_message := Some question_text\<rparr>
                  else add_message ''assistant'' more_details_text s0
              | None \<Rightarrow> add_message ''assistant'' more_details_about_text s0)
         | None \<Rightarrow> add_message ''assistant'' more_details_about_text s0))"

text \<open>The branch \<^verbatim>\<open>except Exception\<close> of the chat turn: the extraction raised.\<close>

definition chat_extraction_failed :: "'f session_state \<Rightarrow> 'f session_state" where
  "chat_extraction_failed s0 =
     (if ''account_name'' \<notin> set (questions_asked s0)
      then (add_message ''assistant'' account_name_question s0)
           \<lparr>questions_asked := questions_asked s0 @ [''account_name''],
            last_assistant_message := Some account_name_question\<rparr>
      else (add_message ''assistant'' continue_text s0)
           \<lparr>last_assistant_message := Some continue_text\<rparr>)"

definition chat_turn ::
  "'f env \<Rightarrow> 'f session_state \<Rightarrow> string \<Rightarrow> 'f extraction \<Rightarrow> 'f session_state" where
  "chat_turn E s prompt outcome =
     (let s0 = add_message ''user'' prompt s
      in case outcome of
           ExtractionReturns (Some extracted) \<Rightarrow> chat_extracted E s0 extracted
         | ExtractionReturns None \<Rightarrow> chat_not_extracted E s0
         | ExtractionRaises \<Rightarrow> chat_extraction_failed s0)"

text \<open>The initial question, shown while the log has no user message.\<close>

definition chat_initial_question :: "'f session_state \<Rightarrow> 'f session_state" where
  "chat_initial_question s =
     (if messages s = [] \<or> \<not> list_ex (\<lambda>msg. role msg = ''user'') (messages s)
      then
        if ''account_name'' \<notin> set (questions_asked s)
        then
          if \<not> list_ex (\<lambda>msg. contains ''What's the name of the company'' (content msg))
                 (messages s)
          then (add_message ''assistant'' account_name_question s)
               \<lparr>questions_asked := questions_asked s @ [''account_name''],
                current_question_category := Some ''account'',
                last_assistant_message := Some account_name_question\<rparr>
          else s
        else s
      else s)"

definition stage_chat_collection ::
  "'f env \<Rightarrow> 'f session_state \<Rightarrow> 'f event \<Rightarrow> 'f session_state" where
  "stage_chat_collection E s ev =
     (case ev of
        ChatInput prompt outcome \<Rightarrow>
          if prompt \<noteq> [] then chat_turn E s prompt outcome else chat_initial_question s
      | _ \<Rightarrow> chat_initial_question s)"

subsection \<open>Stages 2, 4 and 6: the edit stage of each category\<close>

text \<open>
  The dictionaries the three forms build on submit.  An input is rendered, and its key
  set, only under the test the program makes on \<^verbatim>\<open>missing_fields\<close>.
\<close>

definition manual_account :: "string list \<Rightarrow> (string \<Rightarrow> string option) \<Rightarrow> 'f pydict" where
  "manual_account missing_fields vals =
     (if ''name'' \<in> set missing_fields then [(''name'', text_value (vals ''name''))] else []) @
     (if ''currency'' \<in> set missing_fields
      then [(''currency'', text_value (vals ''currency''))] else []) @
     (if ''region'' \<in> set missing_fields
      then [(''region'', text_value (vals ''region''))] else []) @
     (if ''industry'' \<notin> set missing_fields
      then [(''industry'', text_value (vals ''industry''))] else []) @
     (if ''billing_city'' \<notin> set missing_fields
      then [(''billing_city'', text_value (vals ''billing_city''))] else []) @
     (if ''billing_country'' \<notin> set missing_fields
      then [(''billing_country'', text_value (vals ''billing_country''))] else []) @
     (if ''billing_state'' \<notin> set missing_fields
      then [(''billing_state'', text_value (vals ''billing_state''))] else [])"

definition manual_contact :: "string list \<Rightarrow> (string \<Rightarrow> string option) \<Rightarrow> 'f pydict" where
  "manual_contact missing_fields vals =
     (if ''last_name'' \<in> set missing_fields
      then [(''last_name'', text_value (vals ''last_name''))] else []) @
     (if ''title'' \<in> set missing_fields
      then [(''title'', text_value (vals ''title''))] else []) @
     (if ''email'' \<in> set missing_fields
      then [(''email'', text_value (vals ''email''))] else []) @
     (if ''first_name'' \<notin> set missing_fields
      then [(''first_name'', text_value (vals ''first_name''))] else []) @
     (if ''phone'' \<notin> set missing_fields
      then [(''phone'', text_value (vals ''phone''))] else [])"

definition manual_opportunity :: "string list \<Rightarrow> (string \<Rightarrow> string option) \<Rightarrow> 'f pydict"
  where
  "manual_opportunity missing_fields vals =
     (if ''name'' \<in> set missing_fields then [(''name'', text_value (vals ''name''))] else []) @
     (if ''amount'' \<in> set missing_fields
      then [(''amount'', text_value (vals ''amount''))] else []) @
     (if ''close_date'' \<in> set missing_fields
      then [(''close_date'', text_value (vals ''close_date''))] else [])"

text \<open>The test that guards the display of an entity: some message starts with its
  header.\<close>

definition information_shown :: "string \<Rightarrow> message list \<Rightarrow> bool" where
  "information_shown header msgs = list_ex (\<lambda>msg. startswith (content msg) header) msgs"

text \<open>The test that guards the prompt for the missing fields of an entity.\<close>

definition missing_prompt_shown :: "string \<Rightarrow> message list \<Rightarrow> bool" where
  "missing_prompt_shown entity msgs =
     list_ex (\<lambda>msg. contains ''Missing'' (content msg) \<and> contains entity (lower (content msg)))
       (last3 msgs)"

definition stage_account ::
  "'f env \<Rightarrow> 'f session_state \<Rightarrow> 'f event \<Rightarrow> error + 'f session_state" where
  "stage_account E s ev =
     (case extracted_data s of
        None \<Rightarrow> Inr s
      | Some ed \<Rightarrow>
          (case merge_manual_inputs E (manual_inputs s) (Some ed) of
             Inl e \<Rightarrow> Inl e
           | Inr call_data \<Rightarrow>
               if \<not> information_shown ''**Account Information:**'' (messages s)
               then
                 (case account call_data of
                    Some a \<Rightarrow>
                      Inr (add_message ''assistant''
                             (''**Account Information:**'' @ nl @ nl @
                              format_account_for_display E (Some a)) s)
                  | None \<Rightarrow>
                      Inr (add_message ''assistant'' (cannot_extract_text ''account'') s))
               else
                 let missing_fields = get_missing_required_fields_account (account call_data)
                 in if missing_fields \<noteq> []
                    then
                      if \<not> missing_prompt_shown ''account'' (messages s)
                      then Inr (add_message ''assistant''
                                  (missing_prompt ''account'' missing_fields) s)
                      else
                        (case ev of
                           SaveAccountFields vals \<Rightarrow>
                             Inr ((add_message ''user'' (emoji_check @ '' Account fields saved'')
                                     (s\<lparr>manual_inputs := (manual_inputs s)
                                          \<lparr>mi_account :=
                                             dict_update (mi_account (manual_inputs s))
                                               (manual_account missing_fields vals)\<rparr>\<rparr>))
                                  \<lparr>conversation_stage := STAGE_ACCOUNT_VERIFY\<rparr>)
                         | _ \<Rightarrow> Inr s)
                    else
                      if \<not> v_account (verified s)
                      then Inr (s\<lparr>conversation_stage := STAGE_ACCOUNT_VERIFY\<rparr>)
                      else Inr s))"

definition stage_contact ::
  "'f env \<Rightarrow> 'f session_state \<Rightarrow> 'f event \<Rightarrow> error + 'f session_state" where
  "stage_contact E s ev =
     (case merge_manual_inputs E (manual_inputs s) (extracted_data s) of
        Inl e \<Rightarrow> Inl e
      | Inr call_data \<Rightarrow>
          if \<not> information_shown ''**Contact Information:**'' (messages s)
          then
            (case contact call_data of
               Some c \<Rightarrow>
                 Inr (add_message ''assistant''
                        (''**Contact Information:**'' @ nl @ nl @
                         format_contact_for_display (Some c)) s)
             | None \<Rightarrow> Inr (add_message ''assistant'' (cannot_extract_text ''contact'') s))
          else
            let missing_fields = get_missing_required_fields_contact (contact call_data)
            in if missing_fields \<noteq> []
               then
                 if \<not> missing_prompt_shown ''contact'' (messages s)
                 then Inr (add_message ''assistant''
                             (missing_prompt ''contact'' missing_fields) s)
                 else
                   (case ev of
                      SaveContactFields vals \<Rightarrow>
                        Inr ((add_message ''user'' (emoji_check @ '' Contact fields saved'')
                                (s\<lparr>manual_inputs := (manual_inputs s)
                                     \<lparr>mi_contact :=
                                        dict_update (mi_contact (manual_inputs s))
                                          (manual_contact missing_fields vals)\<rparr>\<rparr>))
                             \<lparr>conversation_stage := STAGE_CONTACT_VERIFY\<rparr>)
                    | _ \<Rightarrow> Inr s)
               else
                 if \<not> v_contact (verified s)
                 then Inr (s\<lparr>conversation_stage := STAGE_CONTACT_VERIFY\<rparr>)
                 else Inr s)"

definition stage_opportunity ::
  "'f env \<Rightarrow> 'f session_state \<Rightarrow> 'f event \<Rightarrow> error + 'f session_state" where
  "stage_opportunity E s ev =
     (case merge_manual_inputs E (manual_inputs s) (extracted_data s) of
        Inl e \<Rightarrow> Inl e
      | Inr call_data \<Rightarrow>
          if \<not> information_shown ''**Opportunity Information:**'' (messages s)
          then
            (case opportunity call_data of
               Some p \<Rightarrow>
                 Inr (add_message ''assistant''
                        (''**Opportunity Information:**'' @ nl @ nl @
                         format_opportunity_for_display E (Some p)) s)
             | None \<Rightarrow>
                 Inr (add_message ''assistant'' (cannot_extract_text ''opportunity'') s))
          else
            let missing_fields =
                  get_missing_required_fields_opportunity E (opportunity call_data)
            in if missing_fields \<noteq> []
               then
                 if \<not> missing_prompt_shown ''opportunity'' (messages s)
                 then Inr (add_message ''assistant''
                             (missing_prompt ''opportunity'' missing_fields) s)
                 else
                   (case ev of
                      SaveOpportunityFields vals \<Rightarrow>
                        Inr ((add_message ''user''
                                (emoji_check @ '' Opportunity fields saved'')
                                (s\<lparr>manual_inputs := (manual_inputs s)
                                     \<lparr>mi_opportunity :=
                                        dict_update (mi_opportunity (manual_inputs s))
                                          (manual_opportunity missing_fields vals)\<rparr>\<rparr>))
                             \<lparr>conversation_stage := STAGE_OPPORTUNITY_VERIFY\<rparr>)
                    | _ \<Rightarrow> Inr s)
               else
                 if \<not> v_opportunity (verified s)
                 then Inr (s\<lparr>conversation_stage := STAGE_OPPORTUNITY_VERIFY\<rparr>)
                 else Inr s)"

subsection \<open>Stages 3, 5 and 7: the verification stage of each category\<close>

definition stage_account_verify ::
  "'f env \<Rightarrow> 'f session_state \<Rightarrow> 'f event \<Rightarrow> error + 'f session_state" where
  "stage_account_verify E s ev =
     (case merge_manual_inputs E (manual_inputs s) (extracted_data s) of
        Inl e \<Rightarrow> Inl e
      | Inr call_data \<Rightarrow>
          (case ev of
             AccountLooksGood \<Rightarrow>
               Inr ((add_message ''assistant''
                       ''Great! Now let's move on to the **Contact** information.''
                       (add_message ''user'' (emoji_check @ '' Account verified'')
                          (s\<lparr>verified := (verified s)\<lparr>v_account := True\<rparr>\<rparr>)))
                    \<lparr>conversation_stage := STAGE_CONTACT\<rparr>)
           | EditAccount \<Rightarrow> Inr (s\<lparr>conversation_stage := STAGE_ACCOUNT\<rparr>)
           | _ \<Rightarrow> Inr s))"

definition stage_contact_verify ::
  "'f env \<Rightarrow> 'f session_state \<Rightarrow> 'f event \<Rightarrow> error + 'f session_state" where
  "stage_contact_verify E s ev =
     (case merge_manual_inputs E (manual_inputs s) (extracted_data s) of
        Inl e \<Rightarrow> Inl e
      | Inr call_data \<Rightarrow>
          (case ev of
             ContactLooksGood \<Rightarrow>
               Inr ((add_message ''assistant''
                       ''Excellent! Now let's set up the **Opportunity** information.''
                       (add_message ''user'' (emoji_check @ '' Contact verified'')
                          (s\<lparr>verified := (verified s)\<lparr>v_contact := True\<rparr>\<rparr>)))
                    \<lparr>conversation_stage := STAGE_OPPORTUNITY\<rparr>)
           | EditContact \<Rightarrow> Inr (s\<lparr>conversation_stage := STAGE_CONTACT\<rparr>)
           | _ \<Rightarrow> Inr s))"

definition stage_opportunity_verify ::
  "'f env \<Rightarrow> 'f session_state \<Rightarrow> 'f event \<Rightarrow> error + 'f session_state" where
  "stage_opportunity_verify E s ev =
     (case merge_manual_inputs E (manual_inputs s) (extracted_data s) of
        Inl e \<Rightarrow> Inl e
      | Inr call_data \<Rightarrow>
          (case ev of
             OpportunityLooksGood \<Rightarrow>
               Inr ((add_message ''assistant''
                       ''Perfect! Now let me prepare the final review with all the information that will be sent to Salesforce.''
                       (add_message ''user'' (emoji_check @ '' Opportunity verified'')
                          (s\<lparr>verified := (verified s)\<lparr>v_opportunity := True\<rparr>\<rparr>)))
                    \<lparr>conversation_stage := STAGE_FINAL_REVIEW\<rparr>)
           | EditOpportunity \<Rightarrow> Inr (s\<lparr>conversation_stage := STAGE_OPPORTUNITY\<rparr>)
           | _ \<Rightarrow> Inr s))"

subsection \<open>Stages 8 and 9: final review and completion\<close>

definition report_creation :: "create_result \<Rightarrow> 'f session_state \<Rightarrow> 'f session_state" where
  "report_creation r s =
     (let s1 = (if preview_mode r then add_message ''assistant'' preview_text s
                else if created_records r \<noteq> []
                then add_message ''assistant'' (success_text (created_records r)) s
                else add_message ''assistant'' no_records_text s);
          s2 = (if errors r \<noteq> [] then add_message ''assistant'' (errors_text (errors r)) s1
                else s1)
      in s2\<lparr>conversation_stage := STAGE_COMPLETE\<rparr>)"

definition stage_final_review ::
  "'f env \<Rightarrow> 'f session_state \<Rightarrow> 'f event \<Rightarrow> error + 'f session_state" where
  "stage_final_review E s ev =
     (case merge_manual_inputs E (manual_inputs s) (extracted_data s) of
        Inl e \<Rightarrow> Inl e
      | Inr call_data \<Rightarrow>
          (case ev of
             CreateRecords outcome \<Rightarrow>
               (case outcome of
                  CreationRaises \<Rightarrow> Inr s
                | CreationReturns r \<Rightarrow> Inr (report_creation r s))
           | GoBackToEdit \<Rightarrow> Inr (s\<lparr>conversation_stage := STAGE_OPPORTUNITY_VERIFY\<rparr>)
           | _ \<Rightarrow> Inr s))"

definition process_another :: "'f session_state \<Rightarrow> 'f event \<Rightarrow> 'f session_state" where
  "process_another s ev = (case ev of ProcessAnother \<Rightarrow> reset_conversation s | _ \<Rightarrow> s)"

definition stage_complete ::
  "'f env \<Rightarrow> 'f session_state \<Rightarrow> 'f event \<Rightarrow> error + 'f session_state" where
  "stage_complete E s ev =
     (case extracted_data s of
        None \<Rightarrow> Inr (process_another s ev)
      | Some ed \<Rightarrow>
          (case merge_manual_inputs E (manual_inputs s) (Some ed) of
             Inl e \<Rightarrow> Inl e
           | Inr call_data \<Rightarrow> Inr (process_another s ev)))"

subsection \<open>One run of the script, and the reachable states\<close>

text \<open>
  The sidebar with its reset button comes before the stage handlers.  \<open>Inl\<close> is a run
  that ends in an uncaught exception; every such exception is raised by the merge at
  the head of a handler, before the run has written to the state.
\<close>

definition run :: "'f env \<Rightarrow> 'f session_state \<Rightarrow> 'f event \<Rightarrow> error + 'f session_state" where
  "run E s ev =
     (case ev of
        ResetConversation \<Rightarrow> Inr (reset_conversation s)
      | _ \<Rightarrow>
          (case conversation_stage s of
             STAGE_TRANSCRIPT \<Rightarrow> Inr (stage_transcript s ev)
           | STAGE_CHAT_COLLECTION \<Rightarrow> Inr (stage_chat_collection E s ev)
           | STAGE_ACCOUNT \<Rightarrow> stage_account E s ev
           | STAGE_ACCOUNT_VERIFY \<Rightarrow> stage_account_verify E s ev
           | STAGE_CONTACT \<Rightarrow> stage_contact E s ev
           | STAGE_CONTACT_VERIFY \<Rightarrow> stage_contact_verify E s ev
           | STAGE_OPPORTUNITY \<Rightarrow> stage_opportunity E s ev
           | STAGE_OPPORTUNITY_VERIFY \<Rightarrow> stage_opportunity_verify E s ev
           | STAGE_FINAL_REVIEW \<Rightarrow> stage_final_review E s ev
           | STAGE_COMPLETE \<Rightarrow> stage_complete E s ev))"

inductive reachable :: "'f env \<Rightarrow> 'f session_state \<Rightarrow> bool" for E :: "'f env" where
  reachable_init: "reachable E (initial_state initialized available)"
| reachable_run: "reachable E s \<Longrightarrow> run E s ev = Inr s' \<Longrightarrow> reachable E s'"

section \<open>A concrete environment and concrete records for the examples\<close>

text \<open>
  In the examples a float is an integer, \<^verbatim>\<open>float\<close> and the validators read an unsigned
  decimal numeral and reject every other string, and a number is falsy when it is zero.
\<close>

fun digits_value :: "nat \<Rightarrow> string \<Rightarrow> nat option" where
  "digits_value acc [] = Some acc"
| "digits_value acc (c # cs) =
     (if 48 \<le> (of_char c :: nat) \<and> (of_char c :: nat) \<le> 57
      then digits_value (10 * acc + ((of_char c :: nat) - 48)) cs
      else None)"

definition example_float :: "string \<Rightarrow> int option" where
  "example_float t = (if t = [] then None else map_option int (digits_value 0 t))"

definition example_env :: "int env" where
  "example_env =
     \<lparr>py_float = example_float, float_truthy = (\<lambda>x. x \<noteq> 0),
      validate_float = example_float, validate_int = example_float,
      int_of_float = Some, format_money = show_int\<rparr>"

definition no_manual :: "int manual_dicts" where
  "no_manual = \<lparr>mi_account = [], mi_contact = [], mi_opportunity = []\<rparr>"

definition empty_call :: "int SalesCallData" where
  "empty_call =
     \<lparr>contact = None, account = None, opportunity = None, transcript = ''call'',
      summary = None\<rparr>"

definition acme_account :: "int AccountData" where
  "acme_account = AccountData_default\<lparr>acc_name := Some ''Acme''\<rparr>"

definition full_account :: "int AccountData" where
  "full_account =
     AccountData_default
       \<lparr>acc_name := Some ''Acme'', acc_currency := Some ''USD'', acc_region := Some ''Europe''\<rparr>"

definition full_contact :: ContactData where
  "full_contact =
     ContactData_default
       \<lparr>con_last_name := Some ''Doe'', con_email := Some ''doe@acme.com'',
        con_title := Some ''CTO''\<rparr>"

definition full_opportunity :: "int OpportunityData" where
  "full_opportunity =
     OpportunityData_default
       \<lparr>opp_name := Some ''Acme - CRM'', opp_amount := Some 100,
        opp_close_date := Some ''2025-06-30''\<rparr>"

definition blank_name_call :: "int SalesCallData" where
  "blank_name_call =
     empty_call\<lparr>account := Some (AccountData_default\<lparr>acc_name := Some ''  ''\<rparr>)\<rparr>"

text \<open>A session: the runs of a list of events, ended by the first uncaught exception.\<close>

fun run_all :: "'f env \<Rightarrow> 'f session_state \<Rightarrow> 'f event list \<Rightarrow> error + 'f session_state" where
  "run_all E s [] = Inr s"
| "run_all E s (ev # evs) =
     (case run E s ev of Inl e \<Rightarrow> Inl e | Inr s' \<Rightarrow> run_all E s' evs)"

definition full_call :: "int SalesCallData" where
  "full_call =
     empty_call\<lparr>account := Some full_account, contact := Some full_contact,
                 opportunity := Some full_opportunity\<rparr>"

text \<open>
  A session on a transcript whose extraction is complete: the three entities are shown
  and confirmed one after the other, and from the final review the user goes back to
  the verification of the opportunity.
\<close>

definition review_session :: "int event list" where
  "review_session =
     [NoEvent, ProcessTranscript ''hello'' (ExtractionReturns (Some full_call)),
      NoEvent, NoEvent, AccountLooksGood,
      NoEvent, NoEvent, ContactLooksGood,
      NoEvent, NoEvent, OpportunityLooksGood,
      GoBackToEdit]"

definition review_state :: "int session_state" where
  "review_state =
     (initial_state True False)
       \<lparr>conversation_stage := STAGE_OPPORTUNITY_VERIFY,
        extracted_data := Some full_call,
        verified := \<lparr>v_account = True, v_contact = True, v_opportunity = True\<rparr>,
        transcript_uploaded := True\<rparr>"

definition chat_state :: "int session_state" where
  "chat_state = (initial_state True False)\<lparr>conversation_stage := STAGE_CHAT_COLLECTION\<rparr>"

section \<open>Notions used to state the properties of the merge\<close>

text \<open>
  The dictionaries a form can have written: every key is one of the keys of the form and
  every value is what a text input returns, a string or \<^verbatim>\<open>None\<close>.
\<close>

definition account_form_keys :: "string list" where
  "account_form_keys =
     [''name'', ''currency'', ''region'', ''industry'', ''billing_city'',
      ''billing_country'', ''billing_state'']"

definition contact_form_keys :: "string list" where
  "contact_form_keys = [''last_name'', ''title'', ''email'', ''first_name'', ''phone'']"

definition opportunity_form_keys :: "string list" where
  "opportunity_form_keys = [''name'', ''amount'', ''close_date'']"

fun is_text :: "'f pyval \<Rightarrow> bool" where
  "is_text PNone = True"
| "is_text (PStr t) = True"
| "is_text (PFloat x) = False"

definition form_dict :: "string list \<Rightarrow> 'f pydict \<Rightarrow> bool" where
  "form_dict keys d = list_all (\<lambda>(k, v). k \<in> set keys \<and> is_text v) d"

text \<open>The manual value of a key when it is a non-empty string, the extracted value
  otherwise.\<close>

definition manual_or_extracted :: "'f pydict \<Rightarrow> string \<Rightarrow> string option \<Rightarrow> string option" where
  "manual_or_extracted man k extracted_value =
     (case map_of man k of
        Some (PStr t) \<Rightarrow> if t \<noteq> [] then Some t else extracted_value
      | _ \<Rightarrow> extracted_value)"

text \<open>The manual amount parsed by \<^verbatim>\<open>float\<close> when it is a non-empty string that parses, the
  extracted amount otherwise.\<close>

definition manual_amount_or_extracted ::
  "'f env \<Rightarrow> 'f pydict \<Rightarrow> 'f option \<Rightarrow> 'f option" where
  "manual_amount_or_extracted E man extracted_value =
     (case map_of man ''amount'' of
        Some (PStr t) \<Rightarrow>
          if t \<noteq> []
          then (case py_float E t of Some x \<Rightarrow> Some x | None \<Rightarrow> extracted_value)
          else extracted_value
      | _ \<Rightarrow> extracted_value)"

text \<open>The manual value of a key as a field of a new entity: the string entered, and
  \<^verbatim>\<open>None\<close> when the key is absent or its value is \<^verbatim>\<open>None\<close>.\<close>

definition manual_alone :: "'f pydict \<Rightarrow> string \<Rightarrow> string option" where
  "manual_alone man k = (case map_of man k of Some (PStr t) \<Rightarrow> Some t | _ \<Rightarrow> None)"

text \<open>
  A chat session: the welcome, the choice of the chat, the first question, and an answer
  on which the extraction raises.
\<close>

definition chat_session :: "int event list" where
  "chat_session = [NoEvent, ProvideInfoInChat, NoEvent, ChatInput ''Acme'' ExtractionRaises]"

text \<open>
  A session on a transcript from which only the name of the account is extracted: the
  account is shown, its missing fields are prompted for, and the user submits the form
  without filling anything in.
\<close>

definition acme_call :: "int SalesCallData" where
  "acme_call = empty_call\<lparr>account := Some acme_account\<rparr>"

definition blank_save_session :: "int event list" where
  "blank_save_session =
     [NoEvent, ProcessTranscript ''hello'' (ExtractionReturns (Some acme_call)),
      NoEvent, NoEvent, SaveAccountFields (\<lambda>k. None)]"

definition edit_state :: "int session_state" where
  "edit_state =
     (initial_state True False)
       \<lparr>conversation_stage := STAGE_ACCOUNT,
        messages :=
          [\<lparr>role = ''assistant'',
            content = ''**Account Information:**'' @ nl @ nl @
                      format_account_for_display example_env (Some acme_account)\<rparr>,
           \<lparr>role = ''assistant'',
            content = missing_prompt ''account'' [''currency'', ''region'']\<rparr>],
        extracted_data := Some acme_call,
        transcript_uploaded := True\<rparr>"

text \<open>The manual dictionaries are well formed when each has distinct keys and is one its
  form can have written.\<close>

definition manual_inputs_wf :: "'f manual_dicts \<Rightarrow> bool" where
  "manual_inputs_wf mi =
     (distinct (map fst (mi_account mi)) \<and> form_dict account_form_keys (mi_account mi) \<and>
      distinct (map fst (mi_contact mi)) \<and> form_dict contact_form_keys (mi_contact mi) \<and>
      distinct (map fst (mi_opportunity mi)) \<and>
      form_dict opportunity_form_keys (mi_opportunity mi))"


section \<open>Notions used to state the order of the questions\<close>

text \<open>
  The required fields in the order the specification fixes: the categories account,
  contact, opportunity, and in each category the fields in the order of the registry.
\<close>

definition required_fields :: "(string \<times> string) list" where
  "required_fields =
     [(''account'', ''name''), (''account'', ''currency''), (''account'', ''region''),
      (''contact'', ''last_name''), (''contact'', ''email''), (''contact'', ''title''),
      (''opportunity'', ''name''), (''opportunity'', ''amount''),
      (''opportunity'', ''close_date'')]"

text \<open>A field is reported missing when the dictionary of the missing required fields
  lists it under its category.\<close>

definition reported_missing :: "'f env \<Rightarrow> 'f SalesCallData \<Rightarrow> string \<Rightarrow> string \<Rightarrow> bool" where
  "reported_missing E cd category field =
     (case map_of (get_missing_required_fields_from_data E cd) category of
        None \<Rightarrow> False
      | Some field_list \<Rightarrow> field \<in> set field_list)"

text \<open>The first pair of that order that is missing and whose identifier is not among
  the questions asked.\<close>

definition first_eligible ::
  "'f env \<Rightarrow> 'f SalesCallData \<Rightarrow> string list \<Rightarrow> (string \<times> string) option" where
  "first_eligible E cd asked =
     List.find (\<lambda>(category, field). reported_missing E cd category field \<and>
                                     question_id category field \<notin> set asked)
       required_fields"

section \<open>The resolver: what counts as missing\<close>

text \<open>
  Claim C3, as stated, fails: the computation does not trim.  An account whose name is
  two spaces is not reported as lacking its name.
\<close>

theorem whitespace_name_counterexample:
  "map_of (get_missing_required_fields_from_data example_env blank_name_call) ''account''
     = Some [''currency'', ''region'']"
  by (simp add: get_missing_required_fields_from_data_def blank_name_call_def empty_call_def
        lacks_def str_truthy_def AccountData_default_def)

text \<open>
  Claim C3, amended.  A required field is reported missing exactly when its entity is
  absent or its value is falsy: \<^verbatim>\<open>None\<close> or the empty string, and for the amount \<^verbatim>\<open>None\<close>
  or a number that is falsy.  No whitespace is trimmed.
\<close>

theorem missing_fields_truthiness:
  assumes "map_of (get_missing_required_fields_from_data E cd) ''account'' = Some ma"
    and "map_of (get_missing_required_fields_from_data E cd) ''contact'' = Some mc"
    and "map_of (get_missing_required_fields_from_data E cd) ''opportunity'' = Some mo"
  shows "(''name'' \<in> set ma \<longleftrightarrow>
            (case account cd of None \<Rightarrow> True
             | Some a \<Rightarrow> acc_name a = None \<or> acc_name a = Some []))
       \<and> (''currency'' \<in> set ma \<longleftrightarrow>
            (case account cd of None \<Rightarrow> True
             | Some a \<Rightarrow> acc_currency a = None \<or> acc_currency a = Some []))
       \<and> (''region'' \<in> set ma \<longleftrightarrow>
            (case account cd of None \<Rightarrow> True
             | Some a \<Rightarrow> acc_region a = None \<or> acc_region a = Some []))
       \<and> (''last_name'' \<in> set mc \<longleftrightarrow>
            (case contact cd of None \<Rightarrow> True
             | Some c \<Rightarrow> con_last_name c = None \<or> con_last_name c = Some []))
       \<and> (''email'' \<in> set mc \<longleftrightarrow>
            (case contact cd of None \<Rightarrow> True
             | Some c \<Rightarrow> con_email c = None \<or> con_email c = Some []))
       \<and> (''title'' \<in> set mc \<longleftrightarrow>
            (case contact cd of None \<Rightarrow> True
             | Some c \<Rightarrow> con_title c = None \<or> con_title c = Some []))
       \<and> (''name'' \<in> set mo \<longleftrightarrow>
            (case opportunity cd of None \<Rightarrow> True
             | Some p \<Rightarrow> opp_name p = None \<or> opp_name p = Some []))
       \<and> (''amount'' \<in> set mo \<longleftrightarrow>
            (case opportunity cd of None \<Rightarrow> True
             | Some p \<Rightarrow> opp_amount p = None \<or> (\<exists>x. opp_amount p = Some x \<and> \<not> float_truthy E x)))
       \<and> (''close_date'' \<in> set mo \<longleftrightarrow>
            (case opportunity cd of None \<Rightarrow> True
             | Some p \<Rightarrow> opp_close_date p = None \<or> opp_close_date p = Some []))"
proof -
  have ma: "ma = (if lacks (account cd) (\<lambda>a. str_truthy (acc_name a)) then [''name''] else []) @
        (if lacks (account cd) (\<lambda>a. str_truthy (acc_currency a)) then [''currency''] else []) @
        (if lacks (account cd) (\<lambda>a. str_truthy (acc_region a)) then [''region''] else [])"
    using assms(1) by (simp add: get_missing_required_fields_from_data_def)
  have mc: "mc = (if lacks (contact cd) (\<lambda>c. str_truthy (con_last_name c)) then [''last_name''] else []) @
        (if lacks (contact cd) (\<lambda>c. str_truthy (con_email c)) then [''email''] else []) @
        (if lacks (contact cd) (\<lambda>c. str_truthy (con_title c)) then [''title''] else [])"
    using assms(2) by (simp add: get_missing_required_fields_from_data_def)
  have mo: "mo = (if lacks (opportunity cd) (\<lambda>p. str_truthy (opp_name p)) then [''name''] else []) @
        (if lacks (opportunity cd) (\<lambda>p. num_truthy E (opp_amount p)) then [''amount''] else []) @
        (if lacks (opportunity cd) (\<lambda>p. str_truthy (opp_close_date p)) then [''close_date''] else [])"
    using assms(3) by (simp add: get_missing_required_fields_from_data_def)
  have L: "\<And>obj f. lacks obj (\<lambda>x. str_truthy (f x)) \<longleftrightarrow>
      (case obj of None \<Rightarrow> True | Some x \<Rightarrow> f x = None \<or> f x = Some [])"
    by (simp add: lacks_def str_truthy_def split: option.splits)
  have N: "\<And>obj f. lacks obj (\<lambda>x. num_truthy E (f x)) \<longleftrightarrow>
      (case obj of None \<Rightarrow> True
       | Some x \<Rightarrow> f x = None \<or> (\<exists>y. f x = Some y \<and> \<not> float_truthy E y))"
    by (simp add: lacks_def num_truthy_def split: option.splits)
  have a1: "''name'' \<in> set ma \<longleftrightarrow> lacks (account cd) (\<lambda>a. str_truthy (acc_name a))"
    unfolding ma by simp
  have a2: "''currency'' \<in> set ma \<longleftrightarrow> lacks (account cd) (\<lambda>a. str_truthy (acc_currency a))"
    unfolding ma by simp
  have a3: "''region'' \<in> set ma \<longleftrightarrow> lacks (account cd) (\<lambda>a. str_truthy (acc_region a))"
    unfolding ma by simp
  have c1: "''last_name'' \<in> set mc \<longleftrightarrow> lacks (contact cd) (\<lambda>c. str_truthy (con_last_name c))"
    unfolding mc by simp
  have c2: "''email'' \<in> set mc \<longleftrightarrow> lacks (contact cd) (\<lambda>c. str_truthy (con_email c))"
    unfolding mc by simp
  have c3: "''title'' \<in> set mc \<longleftrightarrow> lacks (contact cd) (\<lambda>c. str_truthy (con_title c))"
    unfolding mc by simp
  have o1: "''name'' \<in> set mo \<longleftrightarrow> lacks (opportunity cd) (\<lambda>p. str_truthy (opp_name p))"
    unfolding mo by simp
  have o2: "''amount'' \<in> set mo \<longleftrightarrow> lacks (opportunity cd) (\<lambda>p. num_truthy E (opp_amount p))"
    unfolding mo by simp
  have o3: "''close_date'' \<in> set mo \<longleftrightarrow> lacks (opportunity cd) (\<lambda>p. str_truthy (opp_close_date p))"
    unfolding mo by simp
  show ?thesis
    unfolding a1 a2 a3 c1 c2 c3 o1 o2 o3 L N by simp
qed

theorem missing_fields_truthiness_witness:
  "map_of (get_missing_required_fields_from_data example_env blank_name_call) ''account''
     = Some [''currency'', ''region'']
   \<and> ''name'' \<notin> set [''currency'', ''region'']
   \<and> account blank_name_call = Some (AccountData_default\<lparr>acc_name := Some ''  ''\<rparr>)"
  using missing_fields_truthiness [of example_env blank_name_call "[''currency'', ''region'']"
      "[''last_name'', ''email'', ''title'']" "[''name'', ''amount'', ''close_date'']"]
  by (simp add: get_missing_required_fields_from_data_def blank_name_call_def empty_call_def
        lacks_def str_truthy_def AccountData_default_def)

text \<open>
  The check of the edit stages, \<^verbatim>\<open>get_missing_required_fields\<close>, tests its fields in the
  same way: the name of an account is reported missing exactly when it is \<^verbatim>\<open>None\<close> or the
  empty string.
\<close>

lemma edit_stage_missing_name:
  "''name'' \<in> set (get_missing_required_fields_account (Some a)) \<longleftrightarrow>
     acc_name a = None \<or> acc_name a = Some []"
  by (simp add: get_missing_required_fields_account_def str_truthy_def split: option.splits)

lemma edit_stage_missing_blank_name:
  "''name'' \<notin> set (get_missing_required_fields_account
                      (Some (AccountData_default\<lparr>acc_name := Some ''  ''\<rparr>)))"
  by (simp add: edit_stage_missing_name)

section \<open>The resolver: priority order\<close>

lemma next_in_fields_None:
  "next_in_fields asked c fl = None \<longleftrightarrow>
     (\<forall>f \<in> set fl. map_of questions (c, f) = None \<or> question_id c f \<in> set asked)"
  by (induction fl) (auto split: option.splits)

lemma next_in_fields_Some:
  "next_in_fields asked c fl = Some (c', f, q) \<Longrightarrow>
     c' = c \<and> f \<in> set fl \<and> map_of questions (c, f) = Some q \<and> question_id c f \<notin> set asked"
  by (induction fl) (auto split: option.splits if_splits)

lemma missing_account_has_question:
  "map_of (get_missing_required_fields_from_data E cd) ''account'' = Some ma \<Longrightarrow>
   f \<in> set ma \<Longrightarrow> map_of questions (''account'', f) \<noteq> None"
  by (auto simp: get_missing_required_fields_from_data_def questions_def split: if_splits)

lemma missing_contact_has_question:
  "map_of (get_missing_required_fields_from_data E cd) ''contact'' = Some mc \<Longrightarrow>
   f \<in> set mc \<Longrightarrow> map_of questions (''contact'', f) \<noteq> None"
  by (auto simp: get_missing_required_fields_from_data_def questions_def split: if_splits)

text \<open>An opportunity question is returned only after the account and the contact, and an
  account or contact question whenever one of them is missing and not yet asked.\<close>

lemma next_question_categories:
  assumes ma: "map_of (get_missing_required_fields_from_data E cd) ''account'' = Some ma"
    and mc: "map_of (get_missing_required_fields_from_data E cd) ''contact'' = Some mc"
  shows "(get_next_question E (Some cd) asked = Some (''opportunity'', f, q) \<longrightarrow>
            (\<forall>x \<in> set ma. question_id ''account'' x \<in> set asked) \<and>
            (\<forall>x \<in> set mc. question_id ''contact'' x \<in> set asked))
       \<and> ((\<exists>x \<in> set ma. question_id ''account'' x \<notin> set asked) \<or>
           (\<exists>x \<in> set mc. question_id ''contact'' x \<notin> set asked) \<longrightarrow>
            (\<exists>c x t. get_next_question E (Some cd) asked = Some (c, x, t) \<and>
                     (c = ''account'' \<or> c = ''contact'')))"
proof -
  have mo: "\<exists>mo. map_of (get_missing_required_fields_from_data E cd) ''opportunity'' = Some mo"
    by (simp add: get_missing_required_fields_from_data_def)
  then obtain mo where mo: "map_of (get_missing_required_fields_from_data E cd) ''opportunity'' = Some mo"
    by blast
  let ?M = "get_missing_required_fields_from_data E cd"
  have unfold: "get_next_question E (Some cd) asked =
      (case next_in_fields asked ''account'' ma of
         Some r \<Rightarrow> Some r
       | None \<Rightarrow> (case next_in_fields asked ''contact'' mc of
                    Some r \<Rightarrow> Some r
                  | None \<Rightarrow> next_in_fields asked ''opportunity'' mo))"
    using ma mc mo by (simp add: get_next_question_def split: option.splits)
  have acc_none: "next_in_fields asked ''account'' ma = None \<longleftrightarrow>
        (\<forall>x \<in> set ma. question_id ''account'' x \<in> set asked)"
    using missing_account_has_question[OF ma] unfolding next_in_fields_None by fastforce
  have con_none: "next_in_fields asked ''contact'' mc = None \<longleftrightarrow>
        (\<forall>x \<in> set mc. question_id ''contact'' x \<in> set asked)"
    using missing_contact_has_question[OF mc] unfolding next_in_fields_None by fastforce
  have part1: "get_next_question E (Some cd) asked = Some (''opportunity'', f, q) \<longrightarrow>
            (\<forall>x \<in> set ma. question_id ''account'' x \<in> set asked) \<and>
            (\<forall>x \<in> set mc. question_id ''contact'' x \<in> set asked)"
  proof
    assume r: "get_next_question E (Some cd) asked = Some (''opportunity'', f, q)"
    have a: "next_in_fields asked ''account'' ma = None"
    proof (cases "next_in_fields asked ''account'' ma")
      case None then show ?thesis .
    next
      case (Some t)
      obtain c' f' q' where t: "t = (c', f', q')" by (cases t)
      from Some t next_in_fields_Some have "c' = ''account''" by blast
      with r Some t unfold show ?thesis by simp
    qed
    have c: "next_in_fields asked ''contact'' mc = None"
    proof (cases "next_in_fields asked ''contact'' mc")
      case None then show ?thesis .
    next
      case (Some t)
      obtain c' f' q' where t: "t = (c', f', q')" by (cases t)
      from Some t next_in_fields_Some have "c' = ''contact''" by blast
      with r Some t unfold a show ?thesis by simp
    qed
    from a c acc_none con_none show "(\<forall>x \<in> set ma. question_id ''account'' x \<in> set asked) \<and>
            (\<forall>x \<in> set mc. question_id ''contact'' x \<in> set asked)" by blast
  qed
  have part2: "(\<exists>x \<in> set ma. question_id ''account'' x \<notin> set asked) \<or>
           (\<exists>x \<in> set mc. question_id ''contact'' x \<notin> set asked) \<longrightarrow>
            (\<exists>c x t. get_next_question E (Some cd) asked = Some (c, x, t) \<and>
                     (c = ''account'' \<or> c = ''contact''))"
  proof
    assume h: "(\<exists>x \<in> set ma. question_id ''account'' x \<notin> set asked) \<or>
           (\<exists>x \<in> set mc. question_id ''contact'' x \<notin> set asked)"
    show "\<exists>c x t. get_next_question E (Some cd) asked = Some (c, x, t) \<and>
                     (c = ''account'' \<or> c = ''contact'')"
    proof (cases "next_in_fields asked ''account'' ma")
      case (Some t)
      obtain c' f' q' where t: "t = (c', f', q')" by (cases t)
      from Some t next_in_fields_Some have "c' = ''account''" by blast
      with Some t unfold show ?thesis by simp
    next
      case None
      with acc_none h have "\<exists>x \<in> set mc. question_id ''contact'' x \<notin> set asked" by blast
      with con_none obtain t where s: "next_in_fields asked ''contact'' mc = Some t" by auto
      obtain c' f' q' where t: "t = (c', f', q')" by (cases t)
      from s t next_in_fields_Some have "c' = ''contact''" by blast
      with None s t unfold show ?thesis by simp
    qed
  qed
  from part1 part2 show ?thesis by blast
qed


lemma missing_empty_call:
  "get_missing_required_fields_from_data example_env empty_call =
     [(''account'', [''name'', ''currency'', ''region'']),
      (''contact'', [''last_name'', ''email'', ''title'']),
      (''opportunity'', [''name'', ''amount'', ''close_date''])]"
  by (simp add: get_missing_required_fields_from_data_def empty_call_def lacks_def)

subsection \<open>The first eligible field\<close>

lemma find_append_case:
  "List.find P (xs @ ys) = (case List.find P xs of None \<Rightarrow> List.find P ys | Some x \<Rightarrow> Some x)"
  by (induction xs) auto

lemma find_map_option:
  "List.find P (map g xs) = map_option g (List.find (\<lambda>x. P (g x)) xs)"
  by (induction xs) auto

lemma find_filter_conj:
  "List.find P (filter Q xs) = List.find (\<lambda>x. Q x \<and> P x) xs"
  by (induction xs) auto

lemma next_in_fields_find:
  assumes "\<forall>f \<in> set fl. map_of questions (c, f) \<noteq> None"
  shows "map_option (\<lambda>(c, f, q). (c, f)) (next_in_fields asked c fl) =
         map_option (Pair c) (List.find (\<lambda>f. question_id c f \<notin> set asked) fl)"
  using assms by (induction fl) (auto split: option.splits)

lemma next_in_fields_text:
  "next_in_fields asked c fl = Some (c', f, q) \<Longrightarrow> map_of questions (c', f) = Some q"
  by (induction fl) (auto split: option.splits if_splits)

lemma missing_lists:
  "get_missing_required_fields_from_data E cd =
     [(''account'', filter (reported_missing E cd ''account'') [''name'', ''currency'', ''region'']),
      (''contact'', filter (reported_missing E cd ''contact'') [''last_name'', ''email'', ''title'']),
      (''opportunity'',
         filter (reported_missing E cd ''opportunity'') [''name'', ''amount'', ''close_date''])]"
proof -
  define a1 where "a1 = lacks (account cd) (\<lambda>a. str_truthy (acc_name a))"
  define a2 where "a2 = lacks (account cd) (\<lambda>a. str_truthy (acc_currency a))"
  define a3 where "a3 = lacks (account cd) (\<lambda>a. str_truthy (acc_region a))"
  define c1 where "c1 = lacks (contact cd) (\<lambda>c. str_truthy (con_last_name c))"
  define c2 where "c2 = lacks (contact cd) (\<lambda>c. str_truthy (con_email c))"
  define c3 where "c3 = lacks (contact cd) (\<lambda>c. str_truthy (con_title c))"
  define o1 where "o1 = lacks (opportunity cd) (\<lambda>p. str_truthy (opp_name p))"
  define o2 where "o2 = lacks (opportunity cd) (\<lambda>p. num_truthy E (opp_amount p))"
  define o3 where "o3 = lacks (opportunity cd) (\<lambda>p. str_truthy (opp_close_date p))"
  have m: "get_missing_required_fields_from_data E cd =
     [(''account'', (if a1 then [''name''] else []) @ (if a2 then [''currency''] else []) @
                    (if a3 then [''region''] else [])),
      (''contact'', (if c1 then [''last_name''] else []) @ (if c2 then [''email''] else []) @
                    (if c3 then [''title''] else [])),
      (''opportunity'', (if o1 then [''name''] else []) @ (if o2 then [''amount''] else []) @
                    (if o3 then [''close_date''] else []))]"
    by (simp add: get_missing_required_fields_from_data_def a1_def a2_def a3_def c1_def c2_def
          c3_def o1_def o2_def o3_def)
  have ra1: "reported_missing E cd ''account'' ''name'' = a1"
    unfolding reported_missing_def m by simp
  have ra2: "reported_missing E cd ''account'' ''currency'' = a2"
    unfolding reported_missing_def m by simp
  have ra3: "reported_missing E cd ''account'' ''region'' = a3"
    unfolding reported_missing_def m by simp
  have rc1: "reported_missing E cd ''contact'' ''last_name'' = c1"
    unfolding reported_missing_def m by simp
  have rc2: "reported_missing E cd ''contact'' ''email'' = c2"
    unfolding reported_missing_def m by simp
  have rc3: "reported_missing E cd ''contact'' ''title'' = c3"
    unfolding reported_missing_def m by simp
  have ro1: "reported_missing E cd ''opportunity'' ''name'' = o1"
    unfolding reported_missing_def m by simp
  have ro2: "reported_missing E cd ''opportunity'' ''amount'' = o2"
    unfolding reported_missing_def m by simp
  have ro3: "reported_missing E cd ''opportunity'' ''close_date'' = o3"
    unfolding reported_missing_def m by simp
  have fa: "filter (reported_missing E cd ''account'') [''name'', ''currency'', ''region''] =
      (if a1 then [''name''] else []) @ (if a2 then [''currency''] else []) @
      (if a3 then [''region''] else [])"
    by (simp add: ra1 ra2 ra3)
  have fc: "filter (reported_missing E cd ''contact'') [''last_name'', ''email'', ''title''] =
      (if c1 then [''last_name''] else []) @ (if c2 then [''email''] else []) @
      (if c3 then [''title''] else [])"
    by (simp add: rc1 rc2 rc3)
  have fo: "filter (reported_missing E cd ''opportunity'') [''name'', ''amount'', ''close_date''] =
      (if o1 then [''name''] else []) @ (if o2 then [''amount''] else []) @
      (if o3 then [''close_date''] else [])"
    by (simp add: ro1 ro2 ro3)
  show ?thesis unfolding fa fc fo by (rule m)
qed

lemma questions_of_required:
  "\<forall>f \<in> set (filter Q [''name'', ''currency'', ''region'']).
      map_of questions (''account'', f) \<noteq> None"
  "\<forall>f \<in> set (filter Q [''last_name'', ''email'', ''title'']).
      map_of questions (''contact'', f) \<noteq> None"
  "\<forall>f \<in> set (filter Q [''name'', ''amount'', ''close_date'']).
      map_of questions (''opportunity'', f) \<noteq> None"
  by (simp_all add: questions_def)

lemma category_first:
  assumes "\<forall>f \<in> set (filter (reported_missing E cd c) fl). map_of questions (c, f) \<noteq> None"
  shows "List.find (\<lambda>(category, field). reported_missing E cd category field \<and>
                                          question_id category field \<notin> set asked)
           (map (Pair c) fl) =
         map_option (\<lambda>(c, f, q). (c, f))
           (next_in_fields asked c (filter (reported_missing E cd c) fl))"
  unfolding next_in_fields_find [OF assms] find_filter_conj find_map_option
  by simp

lemma next_in_three_categories:
  "next_in_categories [(''account'', la), (''contact'', lc), (''opportunity'', lo)] asked
     [''account'', ''contact'', ''opportunity''] =
     (case next_in_fields asked ''account'' la of
        Some r \<Rightarrow> Some r
      | None \<Rightarrow>
          (case next_in_fields asked ''contact'' lc of
             Some r \<Rightarrow> Some r
           | None \<Rightarrow> next_in_fields asked ''opportunity'' lo))"
  by (simp split: option.splits)

lemma get_next_question_unfold:
  "get_next_question E (Some cd) asked =
     (case next_in_fields asked ''account''
             (filter (reported_missing E cd ''account'') [''name'', ''currency'', ''region'']) of
        Some r \<Rightarrow> Some r
      | None \<Rightarrow>
          (case next_in_fields asked ''contact''
                  (filter (reported_missing E cd ''contact'')
                     [''last_name'', ''email'', ''title'']) of
             Some r \<Rightarrow> Some r
           | None \<Rightarrow>
               next_in_fields asked ''opportunity''
                 (filter (reported_missing E cd ''opportunity'')
                    [''name'', ''amount'', ''close_date''])))"
proof -
  have "get_next_question E (Some cd) asked =
      next_in_categories
        [(''account'', filter (reported_missing E cd ''account'') [''name'', ''currency'', ''region'']),
         (''contact'', filter (reported_missing E cd ''contact'') [''last_name'', ''email'', ''title'']),
         (''opportunity'',
            filter (reported_missing E cd ''opportunity'') [''name'', ''amount'', ''close_date''])]
        asked [''account'', ''contact'', ''opportunity'']"
    unfolding get_next_question_def option.case missing_lists [symmetric] by (rule refl)
  then show ?thesis
    unfolding next_in_three_categories .
qed

lemma get_next_question_first_eligible:
  "map_option (\<lambda>(c, f, q). (c, f)) (get_next_question E (Some cd) asked) =
     first_eligible E cd asked"
proof -
  define ra where "ra = next_in_fields asked ''account''
      (filter (reported_missing E cd ''account'') [''name'', ''currency'', ''region''])"
  define rc where "rc = next_in_fields asked ''contact''
      (filter (reported_missing E cd ''contact'') [''last_name'', ''email'', ''title''])"
  define ro where "ro = next_in_fields asked ''opportunity''
      (filter (reported_missing E cd ''opportunity'') [''name'', ''amount'', ''close_date''])"
  have g: "get_next_question E (Some cd) asked =
      (case ra of Some r \<Rightarrow> Some r
       | None \<Rightarrow> (case rc of Some r \<Rightarrow> Some r | None \<Rightarrow> ro))"
    unfolding ra_def rc_def ro_def by (rule get_next_question_unfold)
  have rf: "required_fields =
      map (Pair ''account'') [''name'', ''currency'', ''region''] @
      map (Pair ''contact'') [''last_name'', ''email'', ''title''] @
      map (Pair ''opportunity'') [''name'', ''amount'', ''close_date'']"
    by (simp add: required_fields_def)
  have fe: "first_eligible E cd asked =
      (case map_option (\<lambda>(c, f, q). (c, f)) ra of
         None \<Rightarrow>
           (case map_option (\<lambda>(c, f, q). (c, f)) rc of
              None \<Rightarrow> map_option (\<lambda>(c, f, q). (c, f)) ro
            | Some x \<Rightarrow> Some x)
       | Some x \<Rightarrow> Some x)"
    unfolding first_eligible_def rf find_append_case
      category_first [OF questions_of_required(1)]
      category_first [OF questions_of_required(2)]
      category_first [OF questions_of_required(3)]
      ra_def rc_def ro_def
    by (rule refl)
  show ?thesis
    unfolding g fe by (cases ra; cases rc; simp)
qed

lemma get_next_question_text:
  assumes "get_next_question E (Some cd) asked = Some (c, f, q)"
  shows "map_of questions (c, f) = Some q"
proof -
  define ra where "ra = next_in_fields asked ''account''
      (filter (reported_missing E cd ''account'') [''name'', ''currency'', ''region''])"
  define rc where "rc = next_in_fields asked ''contact''
      (filter (reported_missing E cd ''contact'') [''last_name'', ''email'', ''title''])"
  define ro where "ro = next_in_fields asked ''opportunity''
      (filter (reported_missing E cd ''opportunity'') [''name'', ''amount'', ''close_date''])"
  have g: "get_next_question E (Some cd) asked =
      (case ra of Some r \<Rightarrow> Some r
       | None \<Rightarrow> (case rc of Some r \<Rightarrow> Some r | None \<Rightarrow> ro))"
    unfolding ra_def rc_def ro_def by (rule get_next_question_unfold)
  from assms g have "ra = Some (c, f, q) \<or> rc = Some (c, f, q) \<or> ro = Some (c, f, q)"
    by (cases ra; cases rc; simp)
  then show ?thesis
    unfolding ra_def rc_def ro_def using next_in_fields_text by blast
qed

lemma reported_missing_iff:
  assumes "map_of (get_missing_required_fields_from_data E cd) c = Some l"
  shows "reported_missing E cd c x \<longleftrightarrow> x \<in> set l"
  using assms by (simp add: reported_missing_def)

text \<open>
  Claim C7.  \<^verbatim>\<open>get_next_question\<close> returns the first required field, in the order account,
  contact, opportunity and in each category in the order of the registry, that is
  missing and has not been asked, together with its question.  So it returns an
  opportunity field only when every missing required field of the account and of the
  contact has already been asked, and it returns an account or a contact question
  whenever one of those is missing and not yet asked, whatever the opportunity lacks.
\<close>

theorem next_question_priority:
  "map_option (\<lambda>(c, f, q). (c, f)) (get_next_question E (Some cd) asked)
     = first_eligible E cd asked
   \<and> (get_next_question E (Some cd) asked = Some (c, f, q) \<longrightarrow>
        map_of questions (c, f) = Some q)
   \<and> (get_next_question E (Some cd) asked = Some (''opportunity'', f, q) \<longrightarrow>
        (\<forall>x. reported_missing E cd ''account'' x \<longrightarrow> question_id ''account'' x \<in> set asked) \<and>
        (\<forall>x. reported_missing E cd ''contact'' x \<longrightarrow> question_id ''contact'' x \<in> set asked))
   \<and> ((\<exists>x. reported_missing E cd ''account'' x \<and> question_id ''account'' x \<notin> set asked) \<or>
       (\<exists>x. reported_missing E cd ''contact'' x \<and> question_id ''contact'' x \<notin> set asked) \<longrightarrow>
        (\<exists>c' x t. get_next_question E (Some cd) asked = Some (c', x, t) \<and>
                   (c' = ''account'' \<or> c' = ''contact'')))"
proof -
  obtain ma where ma: "map_of (get_missing_required_fields_from_data E cd) ''account'' = Some ma"
    by (simp add: get_missing_required_fields_from_data_def)
  obtain mc where mc: "map_of (get_missing_required_fields_from_data E cd) ''contact'' = Some mc"
    by (simp add: get_missing_required_fields_from_data_def)
  note ra = reported_missing_iff [OF ma]
  note rc = reported_missing_iff [OF mc]
  note cat = next_question_categories [OF ma mc, of asked f q]
  have p1: "map_option (\<lambda>(c, f, q). (c, f)) (get_next_question E (Some cd) asked)
     = first_eligible E cd asked"
    by (rule get_next_question_first_eligible)
  have p2: "get_next_question E (Some cd) asked = Some (c, f, q) \<longrightarrow>
        map_of questions (c, f) = Some q"
    using get_next_question_text by blast
  have p3: "get_next_question E (Some cd) asked = Some (''opportunity'', f, q) \<longrightarrow>
        (\<forall>x. reported_missing E cd ''account'' x \<longrightarrow> question_id ''account'' x \<in> set asked) \<and>
        (\<forall>x. reported_missing E cd ''contact'' x \<longrightarrow> question_id ''contact'' x \<in> set asked)"
    unfolding ra rc using cat by blast
  have p4: "(\<exists>x. reported_missing E cd ''account'' x \<and> question_id ''account'' x \<notin> set asked) \<or>
       (\<exists>x. reported_missing E cd ''contact'' x \<and> question_id ''contact'' x \<notin> set asked) \<longrightarrow>
        (\<exists>c' x t. get_next_question E (Some cd) asked = Some (c', x, t) \<and>
                   (c' = ''account'' \<or> c' = ''contact''))"
    unfolding ra rc using cat by blast
  from p1 p2 p3 p4 show ?thesis by blast
qed

theorem next_question_priority_witness:
  "get_next_question example_env (Some empty_call) []
     = Some (''account'', ''name'', ''**What's the name of the company or account?**'')
   \<and> first_eligible example_env empty_call [] = Some (''account'', ''name'')
   \<and> get_next_question example_env (Some empty_call) [''account_name'']
     = Some (''account'', ''currency'',
             ''**What currency should we use?** (e.g., USD, EUR, GBP)'')
   \<and> first_eligible example_env empty_call [''account_name''] = Some (''account'', ''currency'')
   \<and> get_next_question example_env (Some empty_call)
        [''account_name'', ''account_currency'', ''account_region'',
         ''contact_last_name'', ''contact_email'', ''contact_title'']
     = Some (''opportunity'', ''name'', ''**What's the name of the opportunity or deal?**'')
   \<and> reported_missing example_env empty_call ''account'' ''region''
   \<and> question_id ''account'' ''region'' \<in>
         set [''account_name'', ''account_currency'', ''account_region'',
              ''contact_last_name'', ''contact_email'', ''contact_title'']"
proof -
  have r1: "get_next_question example_env (Some empty_call) []
     = Some (''account'', ''name'', ''**What's the name of the company or account?**'')"
    by code_simp
  have r2: "get_next_question example_env (Some empty_call) [''account_name'']
     = Some (''account'', ''currency'',
             ''**What currency should we use?** (e.g., USD, EUR, GBP)'')"
    by code_simp
  have r3: "get_next_question example_env (Some empty_call)
        [''account_name'', ''account_currency'', ''account_region'',
         ''contact_last_name'', ''contact_email'', ''contact_title'']
     = Some (''opportunity'', ''name'', ''**What's the name of the opportunity or deal?**'')"
    by code_simp
  have m: "reported_missing example_env empty_call ''account'' ''region''"
    by code_simp
  from next_question_priority [of example_env empty_call "[]"] r1
  have f1: "first_eligible example_env empty_call [] = Some (''account'', ''name'')"
    by simp
  from next_question_priority [of example_env empty_call "[''account_name'']"] r2
  have f2: "first_eligible example_env empty_call [''account_name'']
      = Some (''account'', ''currency'')"
    by simp
  from next_question_priority [of example_env empty_call
      "[''account_name'', ''account_currency'', ''account_region'',
        ''contact_last_name'', ''contact_email'', ''contact_title'']"
      _ "''name''" "''**What's the name of the opportunity or deal?**''"] r3 m
  have q: "question_id ''account'' ''region'' \<in>
         set [''account_name'', ''account_currency'', ''account_region'',
              ''contact_last_name'', ''contact_email'', ''contact_title'']"
    by blast
  from r1 f1 r2 f2 r3 m q show ?thesis by blast
qed

section \<open>The controller: the edit action of a verification stage\<close>

lemma merge_no_manual_full_call:
  "merge_manual_inputs example_env
     \<lparr>mi_account = [], mi_contact = [], mi_opportunity = []\<rparr> (Some full_call) = Inr full_call"
  by (simp add: merge_manual_inputs_def merge_account_def merge_contact_def
        merge_opportunity_def full_call_def empty_call_def)

text \<open>
  Claim C1, as stated, fails: no edit handler writes to \<^verbatim>\<open>verified\<close>.  In the session
  below the opportunity has been confirmed; the user comes back from the final review
  and presses "Edit Opportunity".  The stage is the edit stage and the flag of the
  opportunity is still set.
\<close>

theorem edit_opportunity_counterexample:
  "map_sum id (\<lambda>s. (conversation_stage s, v_opportunity (verified s)))
     (run_all example_env (initial_state True False) (review_session @ [EditOpportunity]))
   = Inr (STAGE_OPPORTUNITY, True)"
  by code_simp

text \<open>
  Claim C1, amended.  In the verification stage of a category, when the merge at the
  head of the handler returns, the edit action moves the stage to the edit stage of the
  same category and changes nothing else: the three verified flags, the flag of the
  category among them, keep their values.
\<close>

theorem edit_action_moves_to_edit_stage:
  assumes "merge_manual_inputs E (manual_inputs s) (extracted_data s) = Inr cd"
  shows "(conversation_stage s = STAGE_ACCOUNT_VERIFY \<longrightarrow>
            run E s EditAccount = Inr (s\<lparr>conversation_stage := STAGE_ACCOUNT\<rparr>))
       \<and> (conversation_stage s = STAGE_CONTACT_VERIFY \<longrightarrow>
            run E s EditContact = Inr (s\<lparr>conversation_stage := STAGE_CONTACT\<rparr>))
       \<and> (conversation_stage s = STAGE_OPPORTUNITY_VERIFY \<longrightarrow>
            run E s EditOpportunity = Inr (s\<lparr>conversation_stage := STAGE_OPPORTUNITY\<rparr>))
       \<and> verified (s\<lparr>conversation_stage := STAGE_ACCOUNT\<rparr>) = verified s
       \<and> verified (s\<lparr>conversation_stage := STAGE_CONTACT\<rparr>) = verified s
       \<and> verified (s\<lparr>conversation_stage := STAGE_OPPORTUNITY\<rparr>) = verified s"
proof -
  have a: "conversation_stage s = STAGE_ACCOUNT_VERIFY \<longrightarrow>
            run E s EditAccount = Inr (s\<lparr>conversation_stage := STAGE_ACCOUNT\<rparr>)"
    using assms by (simp add: run_def stage_account_verify_def)
  have c: "conversation_stage s = STAGE_CONTACT_VERIFY \<longrightarrow>
            run E s EditContact = Inr (s\<lparr>conversation_stage := STAGE_CONTACT\<rparr>)"
    using assms by (simp add: run_def stage_contact_verify_def)
  have p: "conversation_stage s = STAGE_OPPORTUNITY_VERIFY \<longrightarrow>
            run E s EditOpportunity = Inr (s\<lparr>conversation_stage := STAGE_OPPORTUNITY\<rparr>)"
    using assms by (simp add: run_def stage_opportunity_verify_def)
  from a c p show ?thesis by simp
qed

theorem edit_action_moves_to_edit_stage_witness:
  "merge_manual_inputs example_env (manual_inputs review_state) (extracted_data review_state)
     = Inr full_call
   \<and> conversation_stage review_state = STAGE_OPPORTUNITY_VERIFY
   \<and> run example_env review_state EditOpportunity
     = Inr (review_state\<lparr>conversation_stage := STAGE_OPPORTUNITY\<rparr>)
   \<and> v_opportunity (verified (review_state\<lparr>conversation_stage := STAGE_OPPORTUNITY\<rparr>))"
proof -
  have m: "merge_manual_inputs example_env (manual_inputs review_state)
      (extracted_data review_state) = Inr full_call"
    by (simp add: review_state_def initial_state_def merge_no_manual_full_call)
  have st: "conversation_stage review_state = STAGE_OPPORTUNITY_VERIFY"
    by (simp add: review_state_def)
  have v: "v_opportunity (verified review_state)"
    by (simp add: review_state_def)
  from edit_action_moves_to_edit_stage [OF m] st v m show ?thesis by simp
qed

section \<open>The controller: a chat turn whose extraction raises\<close>

text \<open>
  Claim C9.  In the chat collection stage, a turn whose extraction raises ends normally
  and leaves the stage as it is.  After the prompt of the user the log gets the question
  for the account name when that question has not been asked, and it is recorded as
  asked; otherwise the log gets the message that asks the user to go on.
\<close>

theorem extraction_failure_keeps_stage:
  assumes "conversation_stage s = STAGE_CHAT_COLLECTION" and "prompt \<noteq> []"
  shows "\<exists>s'. run E s (ChatInput prompt ExtractionRaises) = Inr s'
            \<and> conversation_stage s' = STAGE_CHAT_COLLECTION
            \<and> s' = (if ''account_name'' \<notin> set (questions_asked s)
                     then s\<lparr>messages := messages s @
                              [\<lparr>role = ''user'', content = prompt\<rparr>,
                               \<lparr>role = ''assistant'', content = account_name_question\<rparr>],
                            questions_asked := questions_asked s @ [''account_name''],
                            last_assistant_message := Some account_name_question\<rparr>
                     else s\<lparr>messages := messages s @
                              [\<lparr>role = ''user'', content = prompt\<rparr>,
                               \<lparr>role = ''assistant'', content = continue_text\<rparr>],
                            last_assistant_message := Some continue_text\<rparr>)"
  using assms
  by (simp add: run_def stage_chat_collection_def chat_turn_def chat_extraction_failed_def
        add_message_def Let_def)

theorem extraction_failure_keeps_stage_witness:
  "conversation_stage chat_state = STAGE_CHAT_COLLECTION \<and> ''Acme'' \<noteq> []
   \<and> run example_env chat_state (ChatInput ''Acme'' ExtractionRaises)
     = Inr (chat_state\<lparr>messages :=
                [\<lparr>role = ''user'', content = ''Acme''\<rparr>,
                 \<lparr>role = ''assistant'', content = account_name_question\<rparr>],
              questions_asked := [''account_name''],
              last_assistant_message := Some account_name_question\<rparr>)"
proof -
  have st: "conversation_stage chat_state = STAGE_CHAT_COLLECTION"
    by (simp add: chat_state_def)
  have qa: "questions_asked chat_state = []" "messages chat_state = []"
    by (simp_all add: chat_state_def initial_state_def)
  from extraction_failure_keeps_stage [OF st, of "''Acme''" example_env] qa st
  show ?thesis by simp
qed

section \<open>The merge: lemmas on dictionaries and on construction\<close>

lemma map_of_filter_distinct:
  "distinct (map fst d) \<Longrightarrow>
   map_of (filter P d) k =
     (case map_of d k of None \<Rightarrow> None | Some v \<Rightarrow> if P (k, v) then Some v else None)"
proof (induction d)
  case Nil
  then show ?case by simp
next
  case (Cons kv d)
  obtain k' v' where kv: "kv = (k', v')" by (cases kv)
  from Cons.prems kv have notin: "k' \<notin> fst ` set d" and dist: "distinct (map fst d)"
    by auto
  from notin have none: "map_of d k' = None"
    by (simp add: map_of_eq_None_iff)
  show ?case
  proof (cases "k = k'")
    case True
    then show ?thesis
      using Cons.IH [OF dist] none kv by (simp split: option.splits)
  next
    case False
    then show ?thesis
      using Cons.IH [OF dist] kv by (simp split: option.splits)
  qed
qed

lemma distinct_filter_keys:
  "distinct (map fst d) \<Longrightarrow> distinct (map fst (filter P d))"
  by (induction d) auto

lemma form_dict_filter:
  "form_dict keys d \<Longrightarrow> form_dict keys (filter P d)"
  by (induction d) (auto simp: form_dict_def)

lemma form_dict_Cons:
  "form_dict keys ((k, v) # d) \<longleftrightarrow> k \<in> set keys \<and> is_text v \<and> form_dict keys d"
  by (simp add: form_dict_def)

text \<open>The value a text entry gives to an \<^verbatim>\<open>Optional[str]\<close> field.\<close>

lemma opt_str_text:
  "is_text v \<Longrightarrow> opt_str v = Inr (case v of PStr t \<Rightarrow> Some t | _ \<Rightarrow> None)"
  by (cases v) simp_all

lemma construct_account_form:
  assumes "distinct (map fst d)" and "form_dict account_form_keys d"
  shows "construct (set_account_field E) d a =
     Inr (a\<lparr>acc_name := (case map_of d ''name'' of None \<Rightarrow> acc_name a
                            | Some v \<Rightarrow> (case v of PStr t \<Rightarrow> Some t | _ \<Rightarrow> None)),
            acc_currency := (case map_of d ''currency'' of None \<Rightarrow> acc_currency a
                            | Some v \<Rightarrow> (case v of PStr t \<Rightarrow> Some t | _ \<Rightarrow> None)),
            acc_region := (case map_of d ''region'' of None \<Rightarrow> acc_region a
                            | Some v \<Rightarrow> (case v of PStr t \<Rightarrow> Some t | _ \<Rightarrow> None)),
            acc_industry := (case map_of d ''industry'' of None \<Rightarrow> acc_industry a
                            | Some v \<Rightarrow> (case v of PStr t \<Rightarrow> Some t | _ \<Rightarrow> None)),
            acc_billing_city := (case map_of d ''billing_city'' of None \<Rightarrow> acc_billing_city a
                            | Some v \<Rightarrow> (case v of PStr t \<Rightarrow> Some t | _ \<Rightarrow> None)),
            acc_billing_country := (case map_of d ''billing_country'' of None \<Rightarrow> acc_billing_country a
                            | Some v \<Rightarrow> (case v of PStr t \<Rightarrow> Some t | _ \<Rightarrow> None)),
            acc_billing_state := (case map_of d ''billing_state'' of None \<Rightarrow> acc_billing_state a
                            | Some v \<Rightarrow> (case v of PStr t \<Rightarrow> Some t | _ \<Rightarrow> None))\<rparr>)"
  using assms
proof (induction d arbitrary: a)
  case Nil
  then show ?case by simp
next
  case (Cons kv d)
  obtain k v where kv: "kv = (k, v)" by (cases kv)
  from Cons.prems kv have dist: "distinct (map fst d)" and notin: "k \<notin> fst ` set d"
    and key: "k \<in> set account_form_keys" and tv: "is_text v"
    and fd: "form_dict account_form_keys d"
    by (auto simp: form_dict_Cons)
  from notin have none: "map_of d k = None"
    by (simp add: map_of_eq_None_iff)
  note IH = Cons.IH [OF dist fd]
  from key have "k = ''name'' \<or> k = ''currency'' \<or> k = ''region'' \<or> k = ''industry'' \<or> k = ''billing_city'' \<or> k = ''billing_country'' \<or> k = ''billing_state''"
    unfolding account_form_keys_def set_simps insert_iff empty_iff by simp
  then show ?case
  proof (elim disjE)
    assume k: "k = ''name''"
    with none have n: "map_of d ''name'' = None" by simp
    have step: "set_account_field E ''name'' v a =
        Inr (a\<lparr>acc_name := (case v of PStr t \<Rightarrow> Some t | _ \<Rightarrow> None)\<rparr>)"
      by (simp add: set_account_field_def opt_str_text [OF tv])
    show ?thesis unfolding kv k
      by (simp add: step IH n cong: option.case_cong)
  next
    assume k: "k = ''currency''"
    with none have n: "map_of d ''currency'' = None" by simp
    have step: "set_account_field E ''currency'' v a =
        Inr (a\<lparr>acc_currency := (case v of PStr t \<Rightarrow> Some t | _ \<Rightarrow> None)\<rparr>)"
      by (simp add: set_account_field_def opt_str_text [OF tv])
    show ?thesis unfolding kv k
      by (simp add: step IH n cong: option.case_cong)
  next
    assume k: "k = ''region''"
    with none have n: "map_of d ''region'' = None" by simp
    have step: "set_account_field E ''region'' v a =
        Inr (a\<lparr>acc_region := (case v of PStr t \<Rightarrow> Some t | _ \<Rightarrow> None)\<rparr>)"
      by (simp add: set_account_field_def opt_str_text [OF tv])
    show ?thesis unfolding kv k
      by (simp add: step IH n cong: option.case_cong)
  next
    assume k: "k = ''industry''"
    with none have n: "map_of d ''industry'' = None" by simp
    have step: "set_account_field E ''industry'' v a =
        Inr (a\<lparr>acc_industry := (case v of PStr t \<Rightarrow> Some t | _ \<Rightarrow> None)\<rparr>)"
      by (simp add: set_account_field_def opt_str_text [OF tv])
    show ?thesis unfolding kv k
      by (simp add: step IH n cong: option.case_cong)
  next
    assume k: "k = ''billing_city''"
    with none have n: "map_of d ''billing_city'' = None" by simp
    have step: "set_account_field E ''billing_city'' v a =
        Inr (a\<lparr>acc_billing_city := (case v of PStr t \<Rightarrow> Some t | _ \<Rightarrow> None)\<rparr>)"
      by (simp add: set_account_field_def opt_str_text [OF tv])
    show ?thesis unfolding kv k
      by (simp add: step IH n cong: option.case_cong)
  next
    assume k: "k = ''billing_country''"
    with none have n: "map_of d ''billing_country'' = None" by simp
    have step: "set_account_field E ''billing_country'' v a =
        Inr (a\<lparr>acc_billing_country := (case v of PStr t \<Rightarrow> Some t | _ \<Rightarrow> None)\<rparr>)"
      by (simp add: set_account_field_def opt_str_text [OF tv])
    show ?thesis unfolding kv k
      by (simp add: step IH n cong: option.case_cong)
  next
    assume k: "k = ''billing_state''"
    with none have n: "map_of d ''billing_state'' = None" by simp
    have step: "set_account_field E ''billing_state'' v a =
        Inr (a\<lparr>acc_billing_state := (case v of PStr t \<Rightarrow> Some t | _ \<Rightarrow> None)\<rparr>)"
      by (simp add: set_account_field_def opt_str_text [OF tv])
    show ?thesis unfolding kv k
      by (simp add: step IH n cong: option.case_cong)
  qed
qed

lemma construct_contact_form:
  assumes "distinct (map fst d)" and "form_dict contact_form_keys d"
  shows "construct (set_contact_field E) d c =
     Inr (c\<lparr>con_last_name := (case map_of d ''last_name'' of None \<Rightarrow> con_last_name c
                            | Some v \<Rightarrow> (case v of PStr t \<Rightarrow> Some t | _ \<Rightarrow> None)),
            con_title := (case map_of d ''title'' of None \<Rightarrow> con_title c
                            | Some v \<Rightarrow> (case v of PStr t \<Rightarrow> Some t | _ \<Rightarrow> None)),
            con_email := (case map_of d ''email'' of None \<Rightarrow> con_email c
                            | Some v \<Rightarrow> (case v of PStr t \<Rightarrow> Some t | _ \<Rightarrow> None)),
            con_first_name := (case map_of d ''first_name'' of None \<Rightarrow> con_first_name c
                            | Some v \<Rightarrow> (case v of PStr t \<Rightarrow> Some t | _ \<Rightarrow> None)),
            con_phone := (case map_of d ''phone'' of None \<Rightarrow> con_phone c
                            | Some v \<Rightarrow> (case v of PStr t \<Rightarrow> Some t | _ \<Rightarrow> None))\<rparr>)"
  using assms
proof (induction d arbitrary: c)
  case Nil
  then show ?case by simp
next
  case (Cons kv d)
  obtain k v where kv: "kv = (k, v)" by (cases kv)
  from Cons.prems kv have dist: "distinct (map fst d)" and notin: "k \<notin> fst ` set d"
    and key: "k \<in> set contact_form_keys" and tv: "is_text v"
    and fd: "form_dict contact_form_keys d"
    by (auto simp: form_dict_Cons)
  from notin have none: "map_of d k = None"
    by (simp add: map_of_eq_None_iff)
  note IH = Cons.IH [OF dist fd]
  from key have "k = ''last_name'' \<or> k = ''title'' \<or> k = ''email'' \<or> k = ''first_name'' \<or> k = ''phone''"
    unfolding contact_form_keys_def set_simps insert_iff empty_iff by simp
  then show ?case
  proof (elim disjE)
    assume k: "k = ''last_name''"
    with none have n: "map_of d ''last_name'' = None" by simp
    have step: "set_contact_field E ''last_name'' v c =
        Inr (c\<lparr>con_last_name := (case v of PStr t \<Rightarrow> Some t | _ \<Rightarrow> None)\<rparr>)"
      by (simp add: set_contact_field_def opt_str_text [OF tv])
    show ?thesis unfolding kv k
      by (simp add: step IH n cong: option.case_cong)
  next
    assume k: "k = ''title''"
    with none have n: "map_of d ''title'' = None" by simp
    have step: "set_contact_field E ''title'' v c =
        Inr (c\<lparr>con_title := (case v of PStr t \<Rightarrow> Some t | _ \<Rightarrow> None)\<rparr>)"
      by (simp add: set_contact_field_def opt_str_text [OF tv])
    show ?thesis unfolding kv k
      by (simp add: step IH n cong: option.case_cong)
  next
    assume k: "k = ''email''"
    with none have n: "map_of d ''email'' = None" by simp
    have step: "set_contact_field E ''email'' v c =
        Inr (c\<lparr>con_email := (case v of PStr t \<Rightarrow> Some t | _ \<Rightarrow> None)\<rparr>)"
      by (simp add: set_contact_field_def opt_str_text [OF tv])
    show ?thesis unfolding kv k
      by (simp add: step IH n cong: option.case_cong)
  next
    assume k: "k = ''first_name''"
    with none have n: "map_of d ''first_name'' = None" by simp
    have step: "set_contact_field E ''first_name'' v c =
        Inr (c\<lparr>con_first_name := (case v of PStr t \<Rightarrow> Some t | _ \<Rightarrow> None)\<rparr>)"
      by (simp add: set_contact_field_def opt_str_text [OF tv])
    show ?thesis unfolding kv k
      by (simp add: step IH n cong: option.case_cong)
  next
    assume k: "k = ''phone''"
    with none have n: "map_of d ''phone'' = None" by simp
    have step: "set_contact_field E ''phone'' v c =
        Inr (c\<lparr>con_phone := (case v of PStr t \<Rightarrow> Some t | _ \<Rightarrow> None)\<rparr>)"
      by (simp add: set_contact_field_def opt_str_text [OF tv])
    show ?thesis unfolding kv k
      by (simp add: step IH n cong: option.case_cong)
  qed
qed

text \<open>For the opportunity the entry \<^verbatim>\<open>amount\<close> is taken after the coercion: it is \<^verbatim>\<open>None\<close>
  or a float.\<close>

lemma construct_opportunity_form:
  assumes "distinct (map fst d)"
    and "list_all (\<lambda>(k, v). (k = ''amount'' \<and> (v = PNone \<or> (\<exists>x. v = PFloat x)))
                        \<or> ((k = ''name'' \<or> k = ''close_date'') \<and> is_text v)) d"
  shows "construct (set_opportunity_field E) d p =
     Inr (p\<lparr>opp_name := (case map_of d ''name'' of None \<Rightarrow> opp_name p
                            | Some v \<Rightarrow> (case v of PStr t \<Rightarrow> Some t | _ \<Rightarrow> None)),
            opp_close_date := (case map_of d ''close_date'' of None \<Rightarrow> opp_close_date p
                            | Some v \<Rightarrow> (case v of PStr t \<Rightarrow> Some t | _ \<Rightarrow> None)),
            opp_amount := (case map_of d ''amount'' of None \<Rightarrow> opp_amount p
                            | Some v \<Rightarrow> (case v of PFloat x \<Rightarrow> Some x | _ \<Rightarrow> None))\<rparr>)"
  using assms
proof (induction d arbitrary: p)
  case Nil
  then show ?case by simp
next
  case (Cons kv d)
  obtain k v where kv: "kv = (k, v)" by (cases kv)
  from Cons.prems kv have dist: "distinct (map fst d)" and notin: "k \<notin> fst ` set d"
    and rest: "list_all (\<lambda>(k, v). (k = ''amount'' \<and> (v = PNone \<or> (\<exists>x. v = PFloat x)))
                        \<or> ((k = ''name'' \<or> k = ''close_date'') \<and> is_text v)) d"
    and key: "(k = ''amount'' \<and> (v = PNone \<or> (\<exists>x. v = PFloat x)))
                \<or> ((k = ''name'' \<or> k = ''close_date'') \<and> is_text v)"
    by auto
  from notin have none: "map_of d k = None"
    by (simp add: map_of_eq_None_iff)
  note IH = Cons.IH [OF dist rest]
  from key have "(k = ''amount'' \<and> (v = PNone \<or> (\<exists>x. v = PFloat x)))
      \<or> (k = ''name'' \<and> is_text v) \<or> (k = ''close_date'' \<and> is_text v)"
    by (elim disjE conjE) simp_all
  then show ?case
  proof (elim disjE conjE exE)
    assume k: "k = ''amount''" and v: "v = PNone"
    with none have n: "map_of d ''amount'' = None" by simp
    have step: "set_opportunity_field E ''amount'' PNone p = Inr (p\<lparr>opp_amount := None\<rparr>)"
      by (simp add: set_opportunity_field_def)
    show ?thesis unfolding kv k v
      by (simp add: step IH n cong: option.case_cong)
  next
    fix x
    assume k: "k = ''amount''" and v: "v = PFloat x"
    with none have n: "map_of d ''amount'' = None" by simp
    have step: "set_opportunity_field E ''amount'' (PFloat x) p =
        Inr (p\<lparr>opp_amount := Some x\<rparr>)"
      by (simp add: set_opportunity_field_def)
    show ?thesis unfolding kv k v
      by (simp add: step IH n cong: option.case_cong)
  next
    assume k: "k = ''name''" and tv: "is_text v"
    with none have n: "map_of d ''name'' = None" by simp
    have step: "set_opportunity_field E ''name'' v p =
        Inr (p\<lparr>opp_name := (case v of PStr t \<Rightarrow> Some t | _ \<Rightarrow> None)\<rparr>)"
      by (simp add: set_opportunity_field_def opt_str_text [OF tv])
    show ?thesis unfolding kv k
      by (simp add: step IH n cong: option.case_cong)
  next
    assume k: "k = ''close_date''" and tv: "is_text v"
    with none have n: "map_of d ''close_date'' = None" by simp
    have step: "set_opportunity_field E ''close_date'' v p =
        Inr (p\<lparr>opp_close_date := (case v of PStr t \<Rightarrow> Some t | _ \<Rightarrow> None)\<rparr>)"
      by (simp add: set_opportunity_field_def opt_str_text [OF tv])
    show ?thesis unfolding kv k
      by (simp add: step IH n cong: option.case_cong)
  qed
qed

lemma form_dict_lookup:
  "form_dict keys d \<Longrightarrow> map_of d k = Some v \<Longrightarrow> is_text v"
  by (induction d) (auto simp: form_dict_def split: if_splits)

lemma overlay_text:
  assumes "distinct (map fst man)" and "form_dict keys man"
  shows "(case map_of (filter (\<lambda>(k, v). truthy E v) man) k of
            None \<Rightarrow> old
          | Some v \<Rightarrow> (case v of PStr t \<Rightarrow> Some t | _ \<Rightarrow> None))
         = manual_or_extracted man k old"
proof (cases "map_of man k")
  case None
  then show ?thesis
    by (simp add: map_of_filter_distinct [OF assms(1)] manual_or_extracted_def)
next
  case (Some v)
  with assms(2) have "is_text v" by (rule form_dict_lookup)
  with Some show ?thesis
    by (cases v) (simp_all add: map_of_filter_distinct [OF assms(1)] manual_or_extracted_def)
qed

lemma overlay_text_except_amount:
  assumes "distinct (map fst man)" and "form_dict keys man" and "k \<noteq> ''amount''"
  shows "(case map_of (filter (\<lambda>(k, v). truthy E v \<and> k \<noteq> ''amount'') man) k of
            None \<Rightarrow> old
          | Some v \<Rightarrow> (case v of PStr t \<Rightarrow> Some t | _ \<Rightarrow> None))
         = manual_or_extracted man k old"
proof (cases "map_of man k")
  case None
  then show ?thesis
    by (simp add: map_of_filter_distinct [OF assms(1)] manual_or_extracted_def)
next
  case (Some v)
  with assms(2) have "is_text v" by (rule form_dict_lookup)
  with Some assms(3) show ?thesis
    by (cases v) (simp_all add: map_of_filter_distinct [OF assms(1)] manual_or_extracted_def)
qed

lemma alone_text:
  "(case map_of man k of None \<Rightarrow> None
    | Some v \<Rightarrow> (case v of PStr t \<Rightarrow> Some t | _ \<Rightarrow> None)) = manual_alone man k"
  by (simp add: manual_alone_def split: option.splits pyval.splits)

lemma merge_account_overlay:
  assumes d: "distinct (map fst man)" and f: "form_dict account_form_keys man"
  shows "merge_account E man (Some a) =
     Inr (Some (a\<lparr>acc_name := manual_or_extracted man ''name'' (acc_name a),
                  acc_currency := manual_or_extracted man ''currency'' (acc_currency a),
                  acc_region := manual_or_extracted man ''region'' (acc_region a),
                  acc_industry := manual_or_extracted man ''industry'' (acc_industry a),
                  acc_billing_city :=
                    manual_or_extracted man ''billing_city'' (acc_billing_city a),
                  acc_billing_country :=
                    manual_or_extracted man ''billing_country'' (acc_billing_country a),
                  acc_billing_state :=
                    manual_or_extracted man ''billing_state'' (acc_billing_state a)\<rparr>))"
proof (cases "man = []")
  case True
  then show ?thesis
    by (simp add: merge_account_def manual_or_extracted_def)
next
  case False
  have c: "construct (set_account_field E) (filter (\<lambda>(k, v). truthy E v) man) a =
     Inr (a\<lparr>acc_name := manual_or_extracted man ''name'' (acc_name a),
            acc_currency := manual_or_extracted man ''currency'' (acc_currency a),
            acc_region := manual_or_extracted man ''region'' (acc_region a),
            acc_industry := manual_or_extracted man ''industry'' (acc_industry a),
            acc_billing_city := manual_or_extracted man ''billing_city'' (acc_billing_city a),
            acc_billing_country :=
              manual_or_extracted man ''billing_country'' (acc_billing_country a),
            acc_billing_state :=
              manual_or_extracted man ''billing_state'' (acc_billing_state a)\<rparr>)"
    unfolding construct_account_form [OF distinct_filter_keys [OF d] form_dict_filter [OF f]]
      overlay_text [OF d f] by (rule refl)
  from False show ?thesis
    by (simp add: merge_account_def c)
qed

lemma merge_contact_overlay:
  assumes d: "distinct (map fst man)" and f: "form_dict contact_form_keys man"
  shows "merge_contact E man (Some c) =
     Inr (Some (c\<lparr>con_last_name := manual_or_extracted man ''last_name'' (con_last_name c),
                  con_title := manual_or_extracted man ''title'' (con_title c),
                  con_email := manual_or_extracted man ''email'' (con_email c),
                  con_first_name := manual_or_extracted man ''first_name'' (con_first_name c),
                  con_phone := manual_or_extracted man ''phone'' (con_phone c)\<rparr>))"
proof (cases "man = []")
  case True
  then show ?thesis
    by (simp add: merge_contact_def manual_or_extracted_def)
next
  case False
  have k: "construct (set_contact_field E) (filter (\<lambda>(k, v). truthy E v) man) c =
     Inr (c\<lparr>con_last_name := manual_or_extracted man ''last_name'' (con_last_name c),
            con_title := manual_or_extracted man ''title'' (con_title c),
            con_email := manual_or_extracted man ''email'' (con_email c),
            con_first_name := manual_or_extracted man ''first_name'' (con_first_name c),
            con_phone := manual_or_extracted man ''phone'' (con_phone c)\<rparr>)"
    unfolding construct_contact_form [OF distinct_filter_keys [OF d] form_dict_filter [OF f]]
      overlay_text [OF d f] by (rule refl)
  from False show ?thesis
    by (simp add: merge_contact_def k)
qed


lemma opportunity_ready_filter:
  assumes "form_dict opportunity_form_keys man"
  shows "list_all (\<lambda>(k, v). (k = ''amount'' \<and> (v = PNone \<or> (\<exists>x. v = PFloat x)))
                        \<or> ((k = ''name'' \<or> k = ''close_date'') \<and> is_text v))
           (filter (\<lambda>(k, v). truthy E v \<and> k \<noteq> ''amount'') man)"
  using assms
proof (induction man)
  case Nil
  then show ?case by simp
next
  case (Cons kv man)
  obtain k v where kv: "kv = (k, v)" by (cases kv)
  from Cons.prems kv have key: "k \<in> set opportunity_form_keys" and tv: "is_text v"
    and fd: "form_dict opportunity_form_keys man"
    by (auto simp: form_dict_Cons)
  from key have "k = ''name'' \<or> k = ''amount'' \<or> k = ''close_date''"
    unfolding opportunity_form_keys_def set_simps insert_iff empty_iff by simp
  with tv Cons.IH [OF fd] show ?case
    unfolding kv by (elim disjE) simp_all
qed

lemma filter_except_amount_none:
  "map_of (filter (\<lambda>(k, v). truthy E v \<and> k \<noteq> ''amount'') man) ''amount'' = None"
  by (induction man) auto

lemma amount_coercion_overlay:
  assumes "form_dict opportunity_form_keys man"
  shows "(case map_of man ''amount'' of
            Some v \<Rightarrow>
              if truthy E v
              then (case float_of E v of Some x \<Rightarrow> p\<lparr>opp_amount := Some x\<rparr> | None \<Rightarrow> p)
              else p
          | None \<Rightarrow> p)
         = p\<lparr>opp_amount := manual_amount_or_extracted E man (opp_amount p)\<rparr>"
proof (cases "map_of man ''amount''")
  case None
  then show ?thesis by (simp add: manual_amount_or_extracted_def)
next
  case (Some v)
  with assms have "is_text v" by (rule form_dict_lookup)
  with Some show ?thesis
    by (cases v) (simp_all add: manual_amount_or_extracted_def split: option.splits)
qed

lemma merge_opportunity_overlay:
  assumes d: "distinct (map fst man)" and f: "form_dict opportunity_form_keys man"
  shows "merge_opportunity E man (Some p) =
     Inr (Some (p\<lparr>opp_name := manual_or_extracted man ''name'' (opp_name p),
                  opp_close_date := manual_or_extracted man ''close_date'' (opp_close_date p),
                  opp_amount := manual_amount_or_extracted E man (opp_amount p)\<rparr>))"
proof (cases "man = []")
  case True
  then show ?thesis
    by (simp add: merge_opportunity_def manual_or_extracted_def
          manual_amount_or_extracted_def)
next
  case False
  let ?p1 = "p\<lparr>opp_amount := manual_amount_or_extracted E man (opp_amount p)\<rparr>"
  have k: "construct (set_opportunity_field E)
             (filter (\<lambda>(k, v). truthy E v \<and> k \<noteq> ''amount'') man) ?p1 =
     Inr (p\<lparr>opp_name := manual_or_extracted man ''name'' (opp_name p),
            opp_close_date := manual_or_extracted man ''close_date'' (opp_close_date p),
            opp_amount := manual_amount_or_extracted E man (opp_amount p)\<rparr>)"
    unfolding construct_opportunity_form
        [OF distinct_filter_keys [OF d] opportunity_ready_filter [OF f]]
      filter_except_amount_none
    by (simp add: overlay_text_except_amount [OF d f])
  from False show ?thesis
    unfolding merge_opportunity_def Let_def amount_coercion_overlay [OF f]
    by (simp add: k)
qed

subsection \<open>Synthesis of an entity from the manual entries\<close>



lemma map_of_dict_set:
  "map_of (dict_set k v d) k' = (if k' = k then Some v else map_of d k')"
  by (induction d) auto

lemma keys_dict_set:
  "fst ` set (dict_set k v d) = insert k (fst ` set d)"
proof (induction d)
  case Nil
  then show ?case by simp
next
  case (Cons kv d)
  obtain k' v' where kv: "kv = (k', v')" by (cases kv)
  show ?case
  proof (cases "k' = k")
    case True
    then show ?thesis unfolding kv by simp
  next
    case False
    with Cons.IH show ?thesis unfolding kv by (simp add: insert_commute)
  qed
qed

lemma distinct_dict_set:
  "distinct (map fst d) \<Longrightarrow> distinct (map fst (dict_set k v d))"
proof (induction d)
  case Nil
  then show ?case by simp
next
  case (Cons kv d)
  obtain k' v' where kv: "kv = (k', v')" by (cases kv)
  from Cons.prems kv have notin: "k' \<notin> fst ` set d" and dist: "distinct (map fst d)"
    by auto
  show ?case
  proof (cases "k' = k")
    case True
    with Cons.prems kv show ?thesis by simp
  next
    case False
    with notin have "k' \<notin> fst ` set (dict_set k v d)"
      by (simp add: keys_dict_set)
    with False Cons.IH [OF dist] kv show ?thesis by simp
  qed
qed

lemma opportunity_ready_no_amount:
  assumes "form_dict opportunity_form_keys man" and "''amount'' \<notin> fst ` set man"
  shows "list_all (\<lambda>(k, v). (k = ''amount'' \<and> (v = PNone \<or> (\<exists>x. v = PFloat x)))
                        \<or> ((k = ''name'' \<or> k = ''close_date'') \<and> is_text v)) man"
  using assms
proof (induction man)
  case Nil
  then show ?case by simp
next
  case (Cons kv man)
  obtain k' v' where kv: "kv = (k', v')" by (cases kv)
  from Cons.prems kv have key: "k' \<in> set opportunity_form_keys" and tv: "is_text v'"
    and fd: "form_dict opportunity_form_keys man"
    and na: "k' \<noteq> ''amount''" and nr: "''amount'' \<notin> fst ` set man"
    by (auto simp: form_dict_Cons)
  from key na have "k' = ''name'' \<or> k' = ''close_date''"
    unfolding opportunity_form_keys_def set_simps insert_iff empty_iff by simp
  with tv Cons.IH [OF fd nr] show ?case
    unfolding kv by simp
qed

lemma opportunity_ready_dict_set:
  assumes "distinct (map fst man)" and "form_dict opportunity_form_keys man"
    and "v = PNone \<or> (\<exists>x. v = PFloat x)"
  shows "list_all (\<lambda>(k, v). (k = ''amount'' \<and> (v = PNone \<or> (\<exists>x. v = PFloat x)))
                        \<or> ((k = ''name'' \<or> k = ''close_date'') \<and> is_text v))
           (dict_set ''amount'' v man)"
  using assms(1,2)
proof (induction man)
  case Nil
  with assms(3) show ?case by simp
next
  case (Cons kv man)
  obtain k' v' where kv: "kv = (k', v')" by (cases kv)
  from Cons.prems kv have key: "k' \<in> set opportunity_form_keys" and tv: "is_text v'"
    and fd: "form_dict opportunity_form_keys man"
    and notin: "k' \<notin> fst ` set man" and dist: "distinct (map fst man)"
    by (auto simp: form_dict_Cons)
  show ?case
  proof (cases "k' = ''amount''")
    case True
    with notin have "''amount'' \<notin> fst ` set man" by simp
    from opportunity_ready_no_amount [OF fd this] assms(3) True show ?thesis
      unfolding kv by simp
  next
    case False
    with key have "k' = ''name'' \<or> k' = ''close_date''"
      unfolding opportunity_form_keys_def set_simps insert_iff empty_iff by simp
    with tv False Cons.IH [OF dist fd] show ?thesis
      unfolding kv by simp
  qed
qed

lemma merge_opportunity_synthesis:
  assumes d: "distinct (map fst man)" and f: "form_dict opportunity_form_keys man"
    and a: "map_of man ''amount'' = Some (PStr t)" and t: "t \<noteq> []"
  shows "merge_opportunity E man None =
     Inr (Some (OpportunityData_default
                  \<lparr>opp_name := manual_alone man ''name'',
                   opp_close_date := manual_alone man ''close_date'',
                   opp_amount := py_float E t\<rparr>))"
proof -
  from a have "(''amount'', PStr t) \<in> set man" by (rule map_of_SomeD)
  with t have ex: "list_ex (truthy E) (map snd man)" and ne: "man \<noteq> []"
    by (auto simp: list_ex_iff intro!: bexI [where x = "(''amount'', PStr t)"])
  define v :: "'a pyval" where "v = (case py_float E t of Some x \<Rightarrow> PFloat x | None \<Rightarrow> PNone)"
  have v: "v = PNone \<or> (\<exists>x. v = PFloat x)"
    by (simp add: v_def split: option.splits)
  have dflt: "opp_name (OpportunityData_default :: 'a OpportunityData) = None"
    "opp_close_date (OpportunityData_default :: 'a OpportunityData) = None"
    by (simp_all add: OpportunityData_default_def)
  have od: "(case float_of E (PStr t) of
               Some x \<Rightarrow> dict_set ''amount'' (PFloat x) man
             | None \<Rightarrow> dict_set ''amount'' PNone man) = dict_set ''amount'' v man"
    by (simp add: v_def split: option.splits)
  have amt: "(case v of PFloat x \<Rightarrow> Some x | _ \<Rightarrow> None) = py_float E t"
    by (simp add: v_def split: option.splits)
  have k: "construct (set_opportunity_field E) (dict_set ''amount'' v man)
             OpportunityData_default =
     Inr (OpportunityData_default
                  \<lparr>opp_name := manual_alone man ''name'',
                   opp_close_date := manual_alone man ''close_date'',
                   opp_amount := py_float E t\<rparr>)"
    unfolding construct_opportunity_form
        [OF distinct_dict_set [OF d] opportunity_ready_dict_set [OF d f v]]
    by (simp add: map_of_dict_set dflt alone_text amt cong: option.case_cong)
  show ?thesis
    using ne ex t
    by (simp add: merge_opportunity_def a od k del: float_of.simps)
qed

section \<open>The merge: the claims\<close>

text \<open>
  Claim C4, as stated, fails for the amount of the opportunity: a manual amount that is
  a non-empty string but does not parse is not the merged amount.  With the manual amount
  \<^verbatim>\<open>abc\<close> the merge returns the extracted record as it is, its amount 100 included.
\<close>

theorem manual_amount_counterexample:
  "merge_manual_inputs example_env
     (no_manual\<lparr>mi_opportunity := [(''amount'', PStr ''abc'')]\<rparr>) (Some full_call)
   = Inr full_call"
  by (simp add: merge_manual_inputs_def merge_account_def merge_contact_def
        merge_opportunity_def no_manual_def full_call_def empty_call_def example_env_def
        example_float_def)

text \<open>
  Claim C4, amended.  Let the manual dictionary of a category be one its form can have
  written.  When the extracted record has the entity, each text field of the merged
  entity is the manual value when that value is a non-empty string and the extracted
  value otherwise; the fields the form does not write are the extracted ones.  The
  amount of the opportunity is the manual amount parsed by \<^verbatim>\<open>float\<close> when that value is a
  non-empty string that parses, and the extracted amount otherwise.
\<close>

theorem manual_values_take_precedence:
  assumes "distinct (map fst ma)" and "form_dict account_form_keys ma"
    and "distinct (map fst mc)" and "form_dict contact_form_keys mc"
    and "distinct (map fst mo)" and "form_dict opportunity_form_keys mo"
  shows "merge_account E ma (Some a) =
           Inr (Some (a\<lparr>acc_name := manual_or_extracted ma ''name'' (acc_name a),
                        acc_currency := manual_or_extracted ma ''currency'' (acc_currency a),
                        acc_region := manual_or_extracted ma ''region'' (acc_region a),
                        acc_industry := manual_or_extracted ma ''industry'' (acc_industry a),
                        acc_billing_city :=
                          manual_or_extracted ma ''billing_city'' (acc_billing_city a),
                        acc_billing_country :=
                          manual_or_extracted ma ''billing_country'' (acc_billing_country a),
                        acc_billing_state :=
                          manual_or_extracted ma ''billing_state'' (acc_billing_state a)\<rparr>))
       \<and> merge_contact E mc (Some c) =
           Inr (Some (c\<lparr>con_last_name :=
                          manual_or_extracted mc ''last_name'' (con_last_name c),
                        con_title := manual_or_extracted mc ''title'' (con_title c),
                        con_email := manual_or_extracted mc ''email'' (con_email c),
                        con_first_name :=
                          manual_or_extracted mc ''first_name'' (con_first_name c),
                        con_phone := manual_or_extracted mc ''phone'' (con_phone c)\<rparr>))
       \<and> merge_opportunity E mo (Some p) =
           Inr (Some (p\<lparr>opp_name := manual_or_extracted mo ''name'' (opp_name p),
                        opp_close_date :=
                          manual_or_extracted mo ''close_date'' (opp_close_date p),
                        opp_amount := manual_amount_or_extracted E mo (opp_amount p)\<rparr>))"
  using merge_account_overlay [OF assms(1,2)] merge_contact_overlay [OF assms(3,4)]
    merge_opportunity_overlay [OF assms(5,6)]
  by blast

theorem manual_values_take_precedence_witness:
  "distinct (map fst [(''name'', PStr '''' :: int pyval), (''currency'', PStr ''EUR'')])
   \<and> form_dict account_form_keys
        [(''name'', PStr '''' :: int pyval), (''currency'', PStr ''EUR'')]
   \<and> merge_account example_env [(''name'', PStr ''''), (''currency'', PStr ''EUR'')]
        (Some full_account)
     = Inr (Some (full_account\<lparr>acc_currency := Some ''EUR''\<rparr>))"
proof -
  have d: "distinct (map fst [(''name'', PStr '''' :: int pyval), (''currency'', PStr ''EUR'')])"
    by simp
  have f: "form_dict account_form_keys
        [(''name'', PStr '''' :: int pyval), (''currency'', PStr ''EUR'')]"
    by (simp add: form_dict_def account_form_keys_def)
  have d0: "distinct (map fst ([] :: int pydict))" by simp
  have fc: "form_dict contact_form_keys ([] :: int pydict)" by (simp add: form_dict_def)
  have fo: "form_dict opportunity_form_keys ([] :: int pydict)" by (simp add: form_dict_def)
  from manual_values_take_precedence [OF d f d0 fc d0 fo, of example_env full_account]
  have "merge_account example_env [(''name'', PStr ''''), (''currency'', PStr ''EUR'')]
        (Some full_account)
     = Inr (Some (full_account\<lparr>acc_currency := Some ''EUR''\<rparr>))"
    by (simp add: manual_or_extracted_def full_account_def AccountData_default_def)
  with d f show ?thesis by blast
qed

text \<open>
  Claim C6.  Let the manual dictionary of the opportunity be one its form can have
  written, with a non-empty string as its amount.  The merge returns, and the amount of
  the merged opportunity is what \<^verbatim>\<open>float\<close> makes of the string when it parses.  When it
  does not parse, the amount is the extracted amount if the record has an opportunity,
  and absent if the opportunity is made from the manual entries.  In both cases the
  field holds a number or nothing, never the string.
\<close>

theorem unparsable_amount_is_dropped:
  assumes "distinct (map fst man)" and "form_dict opportunity_form_keys man"
    and "map_of man ''amount'' = Some (PStr t)" and "t \<noteq> []"
  shows "merge_opportunity E man (Some p) =
           Inr (Some (p\<lparr>opp_name := manual_or_extracted man ''name'' (opp_name p),
                        opp_close_date :=
                          manual_or_extracted man ''close_date'' (opp_close_date p),
                        opp_amount :=
                          (case py_float E t of Some x \<Rightarrow> Some x | None \<Rightarrow> opp_amount p)\<rparr>))
       \<and> merge_opportunity E man None =
           Inr (Some (OpportunityData_default
                        \<lparr>opp_name := manual_alone man ''name'',
                         opp_close_date := manual_alone man ''close_date'',
                         opp_amount := py_float E t\<rparr>))"
proof -
  have "manual_amount_or_extracted E man (opp_amount p) =
      (case py_float E t of Some x \<Rightarrow> Some x | None \<Rightarrow> opp_amount p)"
    using assms(3,4) by (simp add: manual_amount_or_extracted_def)
  with merge_opportunity_overlay [OF assms(1,2), of E p]
    merge_opportunity_synthesis [OF assms, of E]
  show ?thesis by simp
qed

theorem unparsable_amount_is_dropped_witness:
  "distinct (map fst [(''amount'', PStr ''abc'' :: int pyval)])
   \<and> form_dict opportunity_form_keys [(''amount'', PStr ''abc'' :: int pyval)]
   \<and> map_of [(''amount'', PStr ''abc'' :: int pyval)] ''amount'' = Some (PStr ''abc'')
   \<and> ''abc'' \<noteq> []
   \<and> py_float example_env ''abc'' = None
   \<and> merge_opportunity example_env [(''amount'', PStr ''abc'')] (Some full_opportunity)
     = Inr (Some full_opportunity)
   \<and> merge_opportunity example_env [(''amount'', PStr ''abc'')] None
     = Inr (Some OpportunityData_default)"
proof -
  have d: "distinct (map fst [(''amount'', PStr ''abc'' :: int pyval)])" by simp
  have f: "form_dict opportunity_form_keys [(''amount'', PStr ''abc'' :: int pyval)]"
    by (simp add: form_dict_def opportunity_form_keys_def)
  have m: "map_of [(''amount'', PStr ''abc'' :: int pyval)] ''amount'' = Some (PStr ''abc'')"
    by simp
  have t: "''abc'' \<noteq> []" by simp
  have pf: "py_float example_env ''abc'' = None"
    by (simp add: example_env_def example_float_def)
  from unparsable_amount_is_dropped [OF d f m t, of example_env full_opportunity] pf
  have "merge_opportunity example_env [(''amount'', PStr ''abc'')] (Some full_opportunity)
     = Inr (Some full_opportunity)
   \<and> merge_opportunity example_env [(''amount'', PStr ''abc'')] None
     = Inr (Some OpportunityData_default)"
    by (simp add: manual_or_extracted_def manual_alone_def full_opportunity_def
          OpportunityData_default_def)
  with d f m t pf show ?thesis by blast
qed

text \<open>
  The example of the specification: with no extracted account and the manual account
  \<^verbatim>\<open>{name: "Acme"}\<close> the merged record has an account named Acme whose other fields are
  the defaults of the class.
\<close>

lemma synthesis_acme_example:
  "merge_manual_inputs example_env
     (no_manual\<lparr>mi_account := [(''name'', PStr ''Acme'')]\<rparr>) (Some empty_call)
   = Inr (empty_call\<lparr>account := Some acme_account\<rparr>)"
  by (simp add: merge_manual_inputs_def merge_account_def merge_contact_def
        merge_opportunity_def no_manual_def empty_call_def acme_account_def
        set_account_field_def)







text \<open>
  Claim C10.  When the extracted record has no entity of a category and no manual entry
  of the category is truthy, the block of the category returns and leaves the entity
  absent; so does the whole merge, whenever it returns.
\<close>

theorem falsy_manual_entries_leave_entity_absent:
  assumes "\<not> list_ex (truthy E) (map snd man)"
  shows "merge_account E man None = Inr None
       \<and> merge_contact E man None = Inr None
       \<and> merge_opportunity E man None = Inr None
       \<and> (account cd = None \<and> mi_account mi = man
            \<and> merge_manual_inputs E mi (Some cd) = Inr r \<longrightarrow> account r = None)
       \<and> (contact cd = None \<and> mi_contact mi = man
            \<and> merge_manual_inputs E mi (Some cd) = Inr r \<longrightarrow> contact r = None)
       \<and> (opportunity cd = None \<and> mi_opportunity mi = man
            \<and> merge_manual_inputs E mi (Some cd) = Inr r \<longrightarrow> opportunity r = None)"
proof -
  have a: "merge_account E man None = Inr None"
    using assms by (simp add: merge_account_def)
  have c: "merge_contact E man None = Inr None"
    using assms by (simp add: merge_contact_def)
  have p: "merge_opportunity E man None = Inr None"
    using assms by (simp add: merge_opportunity_def)
  have wa: "account cd = None \<and> mi_account mi = man
            \<and> merge_manual_inputs E mi (Some cd) = Inr r \<longrightarrow> account r = None"
    using a by (auto simp: merge_manual_inputs_def split: sum.splits)
  have wc: "contact cd = None \<and> mi_contact mi = man
            \<and> merge_manual_inputs E mi (Some cd) = Inr r \<longrightarrow> contact r = None"
    using c by (auto simp: merge_manual_inputs_def split: sum.splits)
  have wp: "opportunity cd = None \<and> mi_opportunity mi = man
            \<and> merge_manual_inputs E mi (Some cd) = Inr r \<longrightarrow> opportunity r = None"
    using p by (auto simp: merge_manual_inputs_def split: sum.splits)
  from a c p wa wc wp show ?thesis by blast
qed

theorem falsy_manual_entries_leave_entity_absent_witness:
  "\<not> list_ex (truthy example_env) (map snd [(''name'', PStr ''''), (''amount'', PNone)])
   \<and> merge_opportunity example_env [(''name'', PStr ''''), (''amount'', PNone)] None = Inr None
   \<and> merge_manual_inputs example_env
       \<lparr>mi_account = [(''name'', PStr '''')], mi_contact = [(''email'', PNone)],
        mi_opportunity = [(''name'', PStr ''''), (''amount'', PNone)]\<rparr> (Some empty_call)
     = Inr empty_call"
proof -
  have h: "\<not> list_ex (truthy example_env)
      (map snd [(''name'', PStr ''''), (''amount'', PNone)])"
    by simp
  have m: "merge_manual_inputs example_env
       \<lparr>mi_account = [(''name'', PStr '''')], mi_contact = [(''email'', PNone)],
        mi_opportunity = [(''name'', PStr ''''), (''amount'', PNone)]\<rparr> (Some empty_call)
     = Inr empty_call"
    by (simp add: merge_manual_inputs_def merge_account_def merge_contact_def
          merge_opportunity_def empty_call_def)
  from falsy_manual_entries_leave_entity_absent [OF h] h m show ?thesis by blast
qed

section \<open>The controller: the list of the questions asked\<close>

lemma next_in_fields_unasked:
  "next_in_fields asked c fl = Some (c', f, q) \<Longrightarrow> question_id c' f \<notin> set asked"
  by (induction fl) (auto split: option.splits if_splits)

lemma next_in_categories_unasked:
  "next_in_categories m asked cs = Some (c, f, q) \<Longrightarrow> question_id c f \<notin> set asked"
proof (induction cs)
  case Nil
  then show ?case by simp
next
  case (Cons x cs)
  show ?case
  proof (cases "map_of m x")
    case None
    with Cons.prems show ?thesis by simp
  next
    case (Some fl)
    show ?thesis
    proof (cases "next_in_fields asked x fl")
      case None
      with Some Cons show ?thesis by simp
    next
      case (Some r)
      with \<open>map_of m x = Some fl\<close> Cons.prems have "next_in_fields asked x fl = Some (c, f, q)"
        by simp
      then show ?thesis by (rule next_in_fields_unasked)
    qed
  qed
qed

lemma get_next_question_unasked:
  assumes "get_next_question E cd asked = Some (c, f, q)"
  shows "question_id c f \<notin> set asked"
proof (cases cd)
  case None
  with assms show ?thesis
    by (auto simp: get_next_question_def question_id_def split: if_splits)
next
  case (Some d)
  with assms have "next_in_categories (get_missing_required_fields_from_data E d) asked
      [''account'', ''contact'', ''opportunity''] = Some (c, f, q)"
    by (simp add: get_next_question_def del: next_in_categories.simps)
  then show ?thesis by (rule next_in_categories_unasked)
qed

text \<open>Each handler keeps the list of the questions asked free of duplicates.\<close>

lemma reset_conversation_distinct:
  "distinct (questions_asked (reset_conversation s))"
  by (simp add: reset_conversation_def)

lemma questions_asked_add_message [simp]:
  "questions_asked (add_message r c s) = questions_asked s"
  by (simp add: add_message_def)

lemma provide_info_in_chat_distinct:
  "distinct (questions_asked (provide_info_in_chat s))"
  by (simp add: provide_info_in_chat_def Let_def)

lemma stage_transcript_distinct:
  assumes "distinct (questions_asked s)"
  shows "distinct (questions_asked (stage_transcript s ev))"
proof (cases ev)
  case (ProcessTranscript t outcome)
  with assms show ?thesis
    by (cases outcome) (simp_all add: stage_transcript_def)
next
  case ProvideInfoInChat
  with assms show ?thesis
    by (simp add: stage_transcript_def provide_info_in_chat_distinct)
qed (use assms in \<open>simp_all add: stage_transcript_def\<close>)

lemma chat_extracted_distinct:
  assumes "distinct (questions_asked s0)"
  shows "distinct (questions_asked (chat_extracted E s0 extracted))"
proof (cases "get_next_question E (Some extracted) (questions_asked s0)")
  case None
  with assms show ?thesis
    by (simp add: chat_extracted_def Let_def)
next
  case (Some r)
  obtain c f q where r: "r = (c, f, q)" by (cases r)
  with Some assms show ?thesis
    by (simp add: chat_extracted_def Let_def)
qed

lemma chat_not_extracted_distinct:
  assumes "distinct (questions_asked s0)"
  shows "distinct (questions_asked (chat_not_extracted E s0))"
proof (cases "''account_name'' \<notin> set (questions_asked s0)")
  case True
  with assms show ?thesis by (simp add: chat_not_extracted_def)
next
  case False
  show ?thesis
  proof (cases "extracted_data s0")
    case None
    with False assms show ?thesis by (simp add: chat_not_extracted_def)
  next
    case (Some ed)
    show ?thesis
    proof (cases "get_next_question E (Some ed) (questions_asked s0)")
      case None
      with False Some assms show ?thesis by (simp add: chat_not_extracted_def)
    next
      case (Some r)
      obtain c f q where r: "r = (c, f, q)" by (cases r)
      with Some False \<open>extracted_data s0 = Some ed\<close> assms show ?thesis
        by (simp add: chat_not_extracted_def)
    qed
  qed
qed

lemma chat_extraction_failed_distinct:
  assumes "distinct (questions_asked s0)"
  shows "distinct (questions_asked (chat_extraction_failed s0))"
  using assms by (simp add: chat_extraction_failed_def)

lemma chat_turn_distinct:
  assumes "distinct (questions_asked s)"
  shows "distinct (questions_asked (chat_turn E s prompt outcome))"
proof -
  have s0: "distinct (questions_asked (add_message ''user'' prompt s))"
    using assms by simp
  show ?thesis
  proof (cases outcome)
    case ExtractionRaises
    with chat_extraction_failed_distinct [OF s0] show ?thesis
      by (simp add: chat_turn_def Let_def)
  next
    case (ExtractionReturns x)
    show ?thesis
    proof (cases x)
      case None
      with ExtractionReturns chat_not_extracted_distinct [OF s0] show ?thesis
        by (simp add: chat_turn_def Let_def)
    next
      case (Some extracted)
      with ExtractionReturns chat_extracted_distinct [OF s0] show ?thesis
        by (simp add: chat_turn_def Let_def)
    qed
  qed
qed

lemma chat_initial_question_distinct:
  assumes "distinct (questions_asked s)"
  shows "distinct (questions_asked (chat_initial_question s))"
  using assms by (simp add: chat_initial_question_def)

lemma stage_chat_collection_distinct:
  assumes "distinct (questions_asked s)"
  shows "distinct (questions_asked (stage_chat_collection E s ev))"
proof (cases ev)
  case (ChatInput prompt outcome)
  with chat_turn_distinct [OF assms] chat_initial_question_distinct [OF assms]
  show ?thesis by (simp add: stage_chat_collection_def)
qed (use chat_initial_question_distinct [OF assms] in
      \<open>simp_all add: stage_chat_collection_def\<close>)

text \<open>The handlers of the other stages leave the list as it is, or reset it.\<close>

lemma stage_account_questions:
  "stage_account E s ev = Inr s' \<Longrightarrow> questions_asked s' = questions_asked s"
  by (cases ev)
     (auto simp: stage_account_def Let_def split: option.splits sum.splits if_splits)

lemma stage_contact_questions:
  "stage_contact E s ev = Inr s' \<Longrightarrow> questions_asked s' = questions_asked s"
  by (cases ev)
     (auto simp: stage_contact_def Let_def split: option.splits sum.splits if_splits)

lemma stage_opportunity_questions:
  "stage_opportunity E s ev = Inr s' \<Longrightarrow> questions_asked s' = questions_asked s"
  by (cases ev)
     (auto simp: stage_opportunity_def Let_def split: option.splits sum.splits if_splits)

lemma stage_account_verify_questions:
  "stage_account_verify E s ev = Inr s' \<Longrightarrow> questions_asked s' = questions_asked s"
  by (cases ev) (auto simp: stage_account_verify_def split: sum.splits)

lemma stage_contact_verify_questions:
  "stage_contact_verify E s ev = Inr s' \<Longrightarrow> questions_asked s' = questions_asked s"
  by (cases ev) (auto simp: stage_contact_verify_def split: sum.splits)

lemma stage_opportunity_verify_questions:
  "stage_opportunity_verify E s ev = Inr s' \<Longrightarrow> questions_asked s' = questions_asked s"
  by (cases ev) (auto simp: stage_opportunity_verify_def split: sum.splits)

lemma report_creation_questions:
  "questions_asked (report_creation r s) = questions_asked s"
  by (simp add: report_creation_def Let_def)

lemma stage_final_review_questions:
  "stage_final_review E s ev = Inr s' \<Longrightarrow> questions_asked s' = questions_asked s"
  by (cases ev)
     (auto simp: stage_final_review_def report_creation_questions
           split: sum.splits creation.splits)

lemma process_another_distinct:
  "distinct (questions_asked s) \<Longrightarrow> distinct (questions_asked (process_another s ev))"
  by (cases ev) (simp_all add: process_another_def reset_conversation_distinct)

lemma stage_complete_distinct:
  "distinct (questions_asked s) \<Longrightarrow> stage_complete E s ev = Inr s' \<Longrightarrow>
   distinct (questions_asked s')"
  by (auto simp: stage_complete_def process_another_distinct split: option.splits sum.splits)

lemma run_distinct:
  assumes d: "distinct (questions_asked s)" and r: "run E s ev = Inr s'"
  shows "distinct (questions_asked s')"
proof (cases "ev = ResetConversation")
  case True
  with r show ?thesis by (auto simp: run_def reset_conversation_distinct)
next
  case False
  then have unfold: "run E s ev =
     (case conversation_stage s of
        STAGE_TRANSCRIPT \<Rightarrow> Inr (stage_transcript s ev)
      | STAGE_CHAT_COLLECTION \<Rightarrow> Inr (stage_chat_collection E s ev)
      | STAGE_ACCOUNT \<Rightarrow> stage_account E s ev
      | STAGE_ACCOUNT_VERIFY \<Rightarrow> stage_account_verify E s ev
      | STAGE_CONTACT \<Rightarrow> stage_contact E s ev
      | STAGE_CONTACT_VERIFY \<Rightarrow> stage_contact_verify E s ev
      | STAGE_OPPORTUNITY \<Rightarrow> stage_opportunity E s ev
      | STAGE_OPPORTUNITY_VERIFY \<Rightarrow> stage_opportunity_verify E s ev
      | STAGE_FINAL_REVIEW \<Rightarrow> stage_final_review E s ev
      | STAGE_COMPLETE \<Rightarrow> stage_complete E s ev)"
    by (simp add: run_def split: event.splits)
  show ?thesis
  proof (cases "conversation_stage s")
    case STAGE_TRANSCRIPT
    with r unfold stage_transcript_distinct [OF d] show ?thesis by auto
  next
    case STAGE_CHAT_COLLECTION
    with r unfold stage_chat_collection_distinct [OF d] show ?thesis by auto
  next
    case STAGE_ACCOUNT
    with r unfold d stage_account_questions show ?thesis by fastforce
  next
    case STAGE_ACCOUNT_VERIFY
    with r unfold d stage_account_verify_questions show ?thesis by fastforce
  next
    case STAGE_CONTACT
    with r unfold d stage_contact_questions show ?thesis by fastforce
  next
    case STAGE_CONTACT_VERIFY
    with r unfold d stage_contact_verify_questions show ?thesis by fastforce
  next
    case STAGE_OPPORTUNITY
    with r unfold d stage_opportunity_questions show ?thesis by fastforce
  next
    case STAGE_OPPORTUNITY_VERIFY
    with r unfold d stage_opportunity_verify_questions show ?thesis by fastforce
  next
    case STAGE_FINAL_REVIEW
    with r unfold d stage_final_review_questions show ?thesis by fastforce
  next
    case STAGE_COMPLETE
    with r unfold stage_complete_distinct [OF d] show ?thesis by auto
  qed
qed

lemma reachable_distinct:
  "reachable E s \<Longrightarrow> distinct (questions_asked s)"
proof (induction rule: reachable.induct)
  case (reachable_init initialized available)
  show ?case by (simp add: initial_state_def)
next
  case (reachable_run s ev s')
  then show ?case by (auto intro: run_distinct)
qed

lemma run_all_reachable:
  "reachable E s \<Longrightarrow> run_all E s evs = Inr s' \<Longrightarrow> reachable E s'"
proof (induction evs arbitrary: s)
  case Nil
  then show ?case by simp
next
  case (Cons ev evs)
  then show ?case
    by (auto split: sum.splits intro: reachable_run)
qed

text \<open>
  Claim C8.  In every reachable state the list of the questions asked has no duplicate,
  and \<^verbatim>\<open>get_next_question\<close> never returns a field whose identifier is in the list it is
  given.
\<close>

theorem questions_asked_no_duplicates:
  "(reachable E s \<longrightarrow> distinct (questions_asked s))
   \<and> (get_next_question E cd asked = Some (c, f, q) \<longrightarrow> question_id c f \<notin> set asked)"
  using reachable_distinct get_next_question_unasked by blast

theorem questions_asked_no_duplicates_witness:
  "map_sum id questions_asked (run_all example_env (initial_state True False) chat_session)
     = Inr [''account_name'']
   \<and> distinct [''account_name'']
   \<and> get_next_question example_env (Some empty_call) [''account_name'']
     = Some (''account'', ''currency'',
             ''**What currency should we use?** (e.g., USD, EUR, GBP)'')
   \<and> question_id ''account'' ''currency'' \<notin> set [''account_name'']"
proof -
  have e: "map_sum id questions_asked
      (run_all example_env (initial_state True False) chat_session) = Inr [''account_name'']"
    by code_simp
  then obtain s where s: "run_all example_env (initial_state True False) chat_session = Inr s"
    and qa: "questions_asked s = [''account_name'']"
    by (cases "run_all example_env (initial_state True False) chat_session") auto
  have r: "reachable example_env s"
    using run_all_reachable [OF reachable_init s] .
  have g: "get_next_question example_env (Some empty_call) [''account_name'']
     = Some (''account'', ''currency'',
             ''**What currency should we use?** (e.g., USD, EUR, GBP)'')"
    by code_simp
  from questions_asked_no_duplicates [of example_env s "Some empty_call" "[''account_name'']"
      "''account''" "''currency''" "''**What currency should we use?** (e.g., USD, EUR, GBP)''"]
    r g qa
  have "distinct [''account_name''] \<and>
        question_id ''account'' ''currency'' \<notin> set [''account_name'']"
    by simp
  with e g show ?thesis by blast
qed

section \<open>The controller: the manual dictionaries of a reachable state\<close>

lemma distinct_dict_update:
  "distinct (map fst d) \<Longrightarrow> distinct (map fst (dict_update d other))"
proof (induction other arbitrary: d)
  case Nil
  then show ?case by simp
next
  case (Cons kv other)
  obtain k v where kv: "kv = (k, v)" by (cases kv)
  from Cons.prems have "distinct (map fst (dict_set k v d))" by (rule distinct_dict_set)
  then show ?case unfolding kv by (simp add: Cons.IH)
qed

lemma form_dict_dict_set:
  "form_dict keys d \<Longrightarrow> k \<in> set keys \<Longrightarrow> is_text v \<Longrightarrow> form_dict keys (dict_set k v d)"
  by (induction d) (auto simp: form_dict_def)

lemma form_dict_dict_update:
  "form_dict keys d \<Longrightarrow> form_dict keys other \<Longrightarrow> form_dict keys (dict_update d other)"
proof (induction other arbitrary: d)
  case Nil
  then show ?case by simp
next
  case (Cons kv other)
  obtain k v where kv: "kv = (k, v)" by (cases kv)
  from Cons.prems kv have k: "k \<in> set keys" and v: "is_text v" and o: "form_dict keys other"
    by (auto simp: form_dict_Cons)
  from form_dict_dict_set [OF Cons.prems(1) k v] o show ?case
    unfolding kv by (simp add: Cons.IH)
qed

lemma form_dict_append:
  "form_dict keys (xs @ ys) \<longleftrightarrow> form_dict keys xs \<and> form_dict keys ys"
  by (simp add: form_dict_def)

lemma is_text_text_value [simp]: "is_text (text_value x)"
  by (cases x) (simp_all add: text_value_def)

lemma form_dict_manual_account:
  "form_dict account_form_keys (manual_account missing_fields vals)"
  unfolding manual_account_def form_dict_append
  by (simp add: form_dict_def account_form_keys_def)

lemma form_dict_manual_contact:
  "form_dict contact_form_keys (manual_contact missing_fields vals)"
  unfolding manual_contact_def form_dict_append
  by (simp add: form_dict_def contact_form_keys_def)

lemma form_dict_manual_opportunity:
  "form_dict opportunity_form_keys (manual_opportunity missing_fields vals)"
  unfolding manual_opportunity_def form_dict_append
  by (simp add: form_dict_def opportunity_form_keys_def)

lemma manual_inputs_add_message [simp]:
  "manual_inputs (add_message r c s) = manual_inputs s"
  by (simp add: add_message_def)

lemma manual_inputs_wf_reset:
  "manual_inputs_wf (manual_inputs (reset_conversation s))"
  by (simp add: reset_conversation_def manual_inputs_wf_def form_dict_def)

lemma stage_transcript_manual:
  "manual_inputs (stage_transcript s ev) = manual_inputs s"
  by (cases ev)
     (auto simp: stage_transcript_def provide_info_in_chat_def Let_def
           split: extraction.splits)

lemma chat_extracted_manual:
  "manual_inputs (chat_extracted E s0 extracted) = manual_inputs s0"
  by (auto simp: chat_extracted_def Let_def split: option.splits)

lemma chat_not_extracted_manual:
  "manual_inputs (chat_not_extracted E s0) = manual_inputs s0"
  by (auto simp: chat_not_extracted_def split: option.splits)

lemma stage_chat_collection_manual:
  "manual_inputs (stage_chat_collection E s ev) = manual_inputs s"
  by (cases ev)
     (auto simp: stage_chat_collection_def chat_turn_def Let_def chat_extracted_manual
           chat_not_extracted_manual chat_extraction_failed_def chat_initial_question_def
           split: extraction.splits option.splits)

lemma stage_account_manual:
  assumes "manual_inputs_wf (manual_inputs s)" and "stage_account E s ev = Inr s'"
  shows "manual_inputs_wf (manual_inputs s')"
proof (cases "\<exists>vals. ev = SaveAccountFields vals")
  case False
  then have "manual_inputs s' = manual_inputs s"
    using assms(2)
    by (cases ev)
       (auto simp: stage_account_def Let_def split: option.splits sum.splits if_splits)
  with assms(1) show ?thesis by simp
next
  case True
  then obtain vals where ev: "ev = SaveAccountFields vals" by blast
  have "manual_inputs s' = manual_inputs s \<or>
        (\<exists>m. manual_inputs s' = (manual_inputs s)
           \<lparr>mi_account := dict_update (mi_account (manual_inputs s)) (manual_account m vals)\<rparr>)"
    using assms(2) unfolding ev
    by (auto simp: stage_account_def Let_def split: option.splits sum.splits if_splits)
  with assms(1) show ?thesis
    by (auto simp: manual_inputs_wf_def distinct_dict_update form_dict_dict_update
          form_dict_manual_account)
qed

lemma stage_contact_manual:
  assumes "manual_inputs_wf (manual_inputs s)" and "stage_contact E s ev = Inr s'"
  shows "manual_inputs_wf (manual_inputs s')"
proof (cases "\<exists>vals. ev = SaveContactFields vals")
  case False
  then have "manual_inputs s' = manual_inputs s"
    using assms(2)
    by (cases ev)
       (auto simp: stage_contact_def Let_def split: option.splits sum.splits if_splits)
  with assms(1) show ?thesis by simp
next
  case True
  then obtain vals where ev: "ev = SaveContactFields vals" by blast
  have "manual_inputs s' = manual_inputs s \<or>
        (\<exists>m. manual_inputs s' = (manual_inputs s)
           \<lparr>mi_contact := dict_update (mi_contact (manual_inputs s)) (manual_contact m vals)\<rparr>)"
    using assms(2) unfolding ev
    by (auto simp: stage_contact_def Let_def split: option.splits sum.splits if_splits)
  with assms(1) show ?thesis
    by (auto simp: manual_inputs_wf_def distinct_dict_update form_dict_dict_update
          form_dict_manual_contact)
qed

lemma stage_opportunity_manual:
  assumes "manual_inputs_wf (manual_inputs s)" and "stage_opportunity E s ev = Inr s'"
  shows "manual_inputs_wf (manual_inputs s')"
proof (cases "\<exists>vals. ev = SaveOpportunityFields vals")
  case False
  then have "manual_inputs s' = manual_inputs s"
    using assms(2)
    by (cases ev)
       (auto simp: stage_opportunity_def Let_def split: option.splits sum.splits if_splits)
  with assms(1) show ?thesis by simp
next
  case True
  then obtain vals where ev: "ev = SaveOpportunityFields vals" by blast
  have "manual_inputs s' = manual_inputs s \<or>
        (\<exists>m. manual_inputs s' = (manual_inputs s)
           \<lparr>mi_opportunity :=
              dict_update (mi_opportunity (manual_inputs s)) (manual_opportunity m vals)\<rparr>)"
    using assms(2) unfolding ev
    by (auto simp: stage_opportunity_def Let_def split: option.splits sum.splits if_splits)
  with assms(1) show ?thesis
    by (auto simp: manual_inputs_wf_def distinct_dict_update form_dict_dict_update
          form_dict_manual_opportunity)
qed

lemma stage_account_verify_manual:
  "stage_account_verify E s ev = Inr s' \<Longrightarrow> manual_inputs s' = manual_inputs s"
  by (cases ev) (auto simp: stage_account_verify_def split: sum.splits)

lemma stage_contact_verify_manual:
  "stage_contact_verify E s ev = Inr s' \<Longrightarrow> manual_inputs s' = manual_inputs s"
  by (cases ev) (auto simp: stage_contact_verify_def split: sum.splits)

lemma stage_opportunity_verify_manual:
  "stage_opportunity_verify E s ev = Inr s' \<Longrightarrow> manual_inputs s' = manual_inputs s"
  by (cases ev) (auto simp: stage_opportunity_verify_def split: sum.splits)

lemma stage_final_review_manual:
  "stage_final_review E s ev = Inr s' \<Longrightarrow> manual_inputs s' = manual_inputs s"
  by (cases ev)
     (auto simp: stage_final_review_def report_creation_def Let_def
           split: sum.splits creation.splits)

lemma stage_complete_manual:
  assumes "manual_inputs_wf (manual_inputs s)" and "stage_complete E s ev = Inr s'"
  shows "manual_inputs_wf (manual_inputs s')"
proof -
  have "s' = process_another s ev"
    using assms(2) by (auto simp: stage_complete_def split: option.splits sum.splits)
  with assms(1) show ?thesis
    by (cases ev) (simp_all add: process_another_def manual_inputs_wf_reset)
qed

lemma run_manual_inputs_wf:
  assumes w: "manual_inputs_wf (manual_inputs s)" and r: "run E s ev = Inr s'"
  shows "manual_inputs_wf (manual_inputs s')"
proof (cases "ev = ResetConversation")
  case True
  with r show ?thesis by (auto simp: run_def manual_inputs_wf_reset)
next
  case False
  then have unfold: "run E s ev =
     (case conversation_stage s of
        STAGE_TRANSCRIPT \<Rightarrow> Inr (stage_transcript s ev)
      | STAGE_CHAT_COLLECTION \<Rightarrow> Inr (stage_chat_collection E s ev)
      | STAGE_ACCOUNT \<Rightarrow> stage_account E s ev
      | STAGE_ACCOUNT_VERIFY \<Rightarrow> stage_account_verify E s ev
      | STAGE_CONTACT \<Rightarrow> stage_contact E s ev
      | STAGE_CONTACT_VERIFY \<Rightarrow> stage_contact_verify E s ev
      | STAGE_OPPORTUNITY \<Rightarrow> stage_opportunity E s ev
      | STAGE_OPPORTUNITY_VERIFY \<Rightarrow> stage_opportunity_verify E s ev
      | STAGE_FINAL_REVIEW \<Rightarrow> stage_final_review E s ev
      | STAGE_COMPLETE \<Rightarrow> stage_complete E s ev)"
    by (simp add: run_def split: event.splits)
  show ?thesis
  proof (cases "conversation_stage s")
    case STAGE_TRANSCRIPT
    with r unfold w stage_transcript_manual [of s ev] show ?thesis by auto
  next
    case STAGE_CHAT_COLLECTION
    with r unfold w stage_chat_collection_manual [of E s ev] show ?thesis by auto
  next
    case STAGE_ACCOUNT
    with r unfold stage_account_manual [OF w] show ?thesis by simp
  next
    case STAGE_ACCOUNT_VERIFY
    with r unfold w stage_account_verify_manual [of E s ev s'] show ?thesis by simp
  next
    case STAGE_CONTACT
    with r unfold stage_contact_manual [OF w] show ?thesis by simp
  next
    case STAGE_CONTACT_VERIFY
    with r unfold w stage_contact_verify_manual [of E s ev s'] show ?thesis by simp
  next
    case STAGE_OPPORTUNITY
    with r unfold stage_opportunity_manual [OF w] show ?thesis by simp
  next
    case STAGE_OPPORTUNITY_VERIFY
    with r unfold w stage_opportunity_verify_manual [of E s ev s'] show ?thesis by simp
  next
    case STAGE_FINAL_REVIEW
    with r unfold w stage_final_review_manual [of E s ev s'] show ?thesis by simp
  next
    case STAGE_COMPLETE
    with r unfold stage_complete_manual [OF w] show ?thesis by simp
  qed
qed

text \<open>
  The hypotheses on the manual dictionaries in the theorems on the merge hold in every
  reachable state: only the three forms write to them.
\<close>

lemma reachable_manual_inputs_wf:
  "reachable E s \<Longrightarrow> manual_inputs_wf (manual_inputs s)"
proof (induction rule: reachable.induct)
  case (reachable_init initialized available)
  show ?case by (simp add: initial_state_def manual_inputs_wf_def form_dict_def)
next
  case (reachable_run s ev s')
  then show ?case by (auto intro: run_manual_inputs_wf)
qed

section \<open>The controller: from an edit stage to its verification stage\<close>

lemma account_edit_to_verify:
  assumes "ev \<noteq> ResetConversation" and "conversation_stage s = STAGE_ACCOUNT"
  shows "(\<exists>s'. run E s ev = Inr s' \<and> conversation_stage s' = STAGE_ACCOUNT_VERIFY) \<longleftrightarrow>
         (\<exists>cd. merge_manual_inputs E (manual_inputs s) (extracted_data s) = Inr cd \<and>
                 information_shown ''**Account Information:**'' (messages s) \<and>
                 (if get_missing_required_fields_account (account cd) = []
                  then \<not> v_account (verified s)
                  else missing_prompt_shown ''account'' (messages s) \<and>
                       (\<exists>vals. ev = SaveAccountFields vals)))"
proof -
  have r: "run E s ev = stage_account E s ev"
    using assms by (simp add: run_def split: event.splits)
  show ?thesis
  proof (cases "merge_manual_inputs E (manual_inputs s) (extracted_data s)")
    case (Inl e)
    then have "\<exists>e'. stage_account E s ev = Inl e' \<or> stage_account E s ev = Inr s"
      by (auto simp: stage_account_def merge_manual_inputs_def split: option.splits)
    with Inl assms(2) show ?thesis unfolding r by auto
  next
    case (Inr cd)
    then have ed: "extracted_data s \<noteq> None"
      by (cases "extracted_data s") (simp_all add: merge_manual_inputs_def)
    show ?thesis
    proof (cases "information_shown ''**Account Information:**'' (messages s)")
      case False
      with Inr ed assms(2) show ?thesis unfolding r
        by (auto simp: stage_account_def add_message_def split: option.splits)
    next
      case shown: True
      show ?thesis
      proof (cases "get_missing_required_fields_account (account cd) = []")
        case True
        with Inr ed shown assms(2) show ?thesis unfolding r
          by (auto simp: stage_account_def Let_def)
      next
        case missing: False
        show ?thesis
        proof (cases "missing_prompt_shown ''account'' (messages s)")
          case False
          with Inr ed shown missing assms(2) show ?thesis unfolding r
            by (auto simp: stage_account_def Let_def add_message_def)
        next
          case True
          with Inr ed shown missing assms(2) show ?thesis unfolding r
            by (cases ev) (auto simp: stage_account_def Let_def add_message_def)
        qed
      qed
    qed
  qed
qed

lemma contact_edit_to_verify:
  assumes "ev \<noteq> ResetConversation" and "conversation_stage s = STAGE_CONTACT"
  shows "(\<exists>s'. run E s ev = Inr s' \<and> conversation_stage s' = STAGE_CONTACT_VERIFY) \<longleftrightarrow>
         (\<exists>cd. merge_manual_inputs E (manual_inputs s) (extracted_data s) = Inr cd \<and>
                 information_shown ''**Contact Information:**'' (messages s) \<and>
                 (if get_missing_required_fields_contact (contact cd) = []
                  then \<not> v_contact (verified s)
                  else missing_prompt_shown ''contact'' (messages s) \<and>
                       (\<exists>vals. ev = SaveContactFields vals)))"
proof -
  have r: "run E s ev = stage_contact E s ev"
    using assms by (simp add: run_def split: event.splits)
  show ?thesis
  proof (cases "merge_manual_inputs E (manual_inputs s) (extracted_data s)")
    case (Inl e)
    then have "\<exists>e'. stage_contact E s ev = Inl e' \<or> stage_contact E s ev = Inr s"
      by (auto simp: stage_contact_def merge_manual_inputs_def split: option.splits)
    with Inl assms(2) show ?thesis unfolding r by auto
  next
    case (Inr cd)
    then have ed: "extracted_data s \<noteq> None"
      by (cases "extracted_data s") (simp_all add: merge_manual_inputs_def)
    show ?thesis
    proof (cases "information_shown ''**Contact Information:**'' (messages s)")
      case False
      with Inr ed assms(2) show ?thesis unfolding r
        by (auto simp: stage_contact_def add_message_def split: option.splits)
    next
      case shown: True
      show ?thesis
      proof (cases "get_missing_required_fields_contact (contact cd) = []")
        case True
        with Inr ed shown assms(2) show ?thesis unfolding r
          by (auto simp: stage_contact_def Let_def)
      next
        case missing: False
        show ?thesis
        proof (cases "missing_prompt_shown ''contact'' (messages s)")
          case False
          with Inr ed shown missing assms(2) show ?thesis unfolding r
            by (auto simp: stage_contact_def Let_def add_message_def)
        next
          case True
          with Inr ed shown missing assms(2) show ?thesis unfolding r
            by (cases ev) (auto simp: stage_contact_def Let_def add_message_def)
        qed
      qed
    qed
  qed
qed

lemma opportunity_edit_to_verify:
  assumes "ev \<noteq> ResetConversation" and "conversation_stage s = STAGE_OPPORTUNITY"
  shows "(\<exists>s'. run E s ev = Inr s' \<and> conversation_stage s' = STAGE_OPPORTUNITY_VERIFY) \<longleftrightarrow>
         (\<exists>cd. merge_manual_inputs E (manual_inputs s) (extracted_data s) = Inr cd \<and>
                 information_shown ''**Opportunity Information:**'' (messages s) \<and>
                 (if get_missing_required_fields_opportunity E (opportunity cd) = []
                  then \<not> v_opportunity (verified s)
                  else missing_prompt_shown ''opportunity'' (messages s) \<and>
                       (\<exists>vals. ev = SaveOpportunityFields vals)))"
proof -
  have r: "run E s ev = stage_opportunity E s ev"
    using assms by (simp add: run_def split: event.splits)
  show ?thesis
  proof (cases "merge_manual_inputs E (manual_inputs s) (extracted_data s)")
    case (Inl e)
    then have "\<exists>e'. stage_opportunity E s ev = Inl e' \<or> stage_opportunity E s ev = Inr s"
      by (auto simp: stage_opportunity_def merge_manual_inputs_def split: option.splits)
    with Inl assms(2) show ?thesis unfolding r by auto
  next
    case (Inr cd)
    then have ed: "extracted_data s \<noteq> None"
      by (cases "extracted_data s") (simp_all add: merge_manual_inputs_def)
    show ?thesis
    proof (cases "information_shown ''**Opportunity Information:**'' (messages s)")
      case False
      with Inr ed assms(2) show ?thesis unfolding r
        by (auto simp: stage_opportunity_def add_message_def split: option.splits)
    next
      case shown: True
      show ?thesis
      proof (cases "get_missing_required_fields_opportunity E (opportunity cd) = []")
        case True
        with Inr ed shown assms(2) show ?thesis unfolding r
          by (auto simp: stage_opportunity_def Let_def)
      next
        case missing: False
        show ?thesis
        proof (cases "missing_prompt_shown ''opportunity'' (messages s)")
          case False
          with Inr ed shown missing assms(2) show ?thesis unfolding r
            by (auto simp: stage_opportunity_def Let_def add_message_def)
        next
          case True
          with Inr ed shown missing assms(2) show ?thesis unfolding r
            by (cases ev) (auto simp: stage_opportunity_def Let_def add_message_def)
        qed
      qed
    qed
  qed
qed

text \<open>
  Claim C2, as stated, fails: the submit of a form sets the verification stage without
  looking at what was saved.  In the session below only the name of the account was
  extracted; the user submits the form of the missing fields untouched.  The stage is
  the verification stage of the account, and the merged account still lacks its
  currency and its region.
\<close>

theorem blank_save_counterexample:
  "map_sum id
     (\<lambda>s. (conversation_stage s,
            map_sum id (\<lambda>cd. get_missing_required_fields_account (account cd))
              (merge_manual_inputs example_env (manual_inputs s) (extracted_data s))))
     (run_all example_env (initial_state True False) blank_save_session)
   = Inr (STAGE_ACCOUNT_VERIFY, Inr [''currency'', ''region''])"
  by code_simp

text \<open>
  Claim C2, amended.  A run in the edit stage of a category, other than a reset, ends in
  the verification stage of the category in exactly two cases, both after the merge has
  returned and the entity has been shown: the merged record lacks no required field of
  the category and the category is not verified; or it lacks one, the prompt for the
  missing fields is shown, and the form is submitted, with any values.  The missing
  fields are computed at each run of the edit stage, before the form, and not after a
  save.
\<close>

theorem edit_stage_advances_to_verify:
  assumes "ev \<noteq> ResetConversation"
  shows "(conversation_stage s = STAGE_ACCOUNT \<longrightarrow>
          ((\<exists>s'. run E s ev = Inr s' \<and> conversation_stage s' = STAGE_ACCOUNT_VERIFY) \<longleftrightarrow>
           (\<exists>cd. merge_manual_inputs E (manual_inputs s) (extracted_data s) = Inr cd \<and>
                 information_shown ''**Account Information:**'' (messages s) \<and>
                 (if get_missing_required_fields_account (account cd) = []
                  then \<not> v_account (verified s)
                  else missing_prompt_shown ''account'' (messages s) \<and>
                       (\<exists>vals. ev = SaveAccountFields vals)))))
       \<and> (conversation_stage s = STAGE_CONTACT \<longrightarrow>
          ((\<exists>s'. run E s ev = Inr s' \<and> conversation_stage s' = STAGE_CONTACT_VERIFY) \<longleftrightarrow>
           (\<exists>cd. merge_manual_inputs E (manual_inputs s) (extracted_data s) = Inr cd \<and>
                 information_shown ''**Contact Information:**'' (messages s) \<and>
                 (if get_missing_required_fields_contact (contact cd) = []
                  then \<not> v_contact (verified s)
                  else missing_prompt_shown ''contact'' (messages s) \<and>
                       (\<exists>vals. ev = SaveContactFields vals)))))
       \<and> (conversation_stage s = STAGE_OPPORTUNITY \<longrightarrow>
          ((\<exists>s'. run E s ev = Inr s' \<and> conversation_stage s' = STAGE_OPPORTUNITY_VERIFY) \<longleftrightarrow>
           (\<exists>cd. merge_manual_inputs E (manual_inputs s) (extracted_data s) = Inr cd \<and>
                 information_shown ''**Opportunity Information:**'' (messages s) \<and>
                 (if get_missing_required_fields_opportunity E (opportunity cd) = []
                  then \<not> v_opportunity (verified s)
                  else missing_prompt_shown ''opportunity'' (messages s) \<and>
                       (\<exists>vals. ev = SaveOpportunityFields vals)))))"
  using account_edit_to_verify [OF assms, of s E] contact_edit_to_verify [OF assms, of s E]
    opportunity_edit_to_verify [OF assms, of s E]
  by blast

theorem edit_stage_advances_to_verify_witness:
  "SaveAccountFields (\<lambda>k. None) \<noteq> (ResetConversation :: int event)
   \<and> conversation_stage edit_state = STAGE_ACCOUNT
   \<and> merge_manual_inputs example_env (manual_inputs edit_state) (extracted_data edit_state)
     = Inr acme_call
   \<and> get_missing_required_fields_account (account acme_call) = [''currency'', ''region'']
   \<and> (\<exists>s'. run example_env edit_state (SaveAccountFields (\<lambda>k. None)) = Inr s'
          \<and> conversation_stage s' = STAGE_ACCOUNT_VERIFY)"
proof -
  have ne: "SaveAccountFields (\<lambda>k. None) \<noteq> (ResetConversation :: int event)" by simp
  have st: "conversation_stage edit_state = STAGE_ACCOUNT"
    by (simp add: edit_state_def)
  have m: "merge_manual_inputs example_env (manual_inputs edit_state)
      (extracted_data edit_state) = Inr acme_call"
    by code_simp
  have mf: "get_missing_required_fields_account (account acme_call)
      = [''currency'', ''region'']"
    by code_simp
  have sh: "information_shown ''**Account Information:**'' (messages edit_state)"
    by code_simp
  have pr: "missing_prompt_shown ''account'' (messages edit_state)"
    by code_simp
  have rhs: "\<exists>cd. merge_manual_inputs example_env (manual_inputs edit_state)
                   (extracted_data edit_state) = Inr cd \<and>
                 information_shown ''**Account Information:**'' (messages edit_state) \<and>
                 (if get_missing_required_fields_account (account cd) = []
                  then \<not> v_account (verified edit_state)
                  else missing_prompt_shown ''account'' (messages edit_state) \<and>
                       (\<exists>vals. (SaveAccountFields (\<lambda>k. None) :: int event)
                                 = SaveAccountFields vals))"
    using m mf sh pr by auto
  from edit_stage_advances_to_verify [OF ne, of edit_state example_env] st rhs
  have "\<exists>s'. run example_env edit_state (SaveAccountFields (\<lambda>k. None)) = Inr s'
          \<and> conversation_stage s' = STAGE_ACCOUNT_VERIFY"
    by blast
  with ne st m mf show ?thesis by blast
qed

end
